theory Spec2Isabelle
  imports Complex_Main "HOL-Library.List_Lexorder" "HOL-Library.Log_Nat"
begin

section \<open>Python strings and dictionaries\<close>

text \<open>
  A Python \<open>str\<close> is a sequence of Unicode code points: \<open>len\<close> counts code points and
  comparison is lexicographic on them. A string is therefore a list of naturals, ordered by
  the lexicographic order on lists. \<open>py\<close> turns a literal into that form.
\<close>

type_synonym pystr = "nat list"

definition py :: "string \<Rightarrow> pystr" where
  "py s = map of_char s"

text \<open>\<open>str.isspace\<close> for one code point, and \<open>str.strip()\<close> with no argument.\<close>

definition py_isspace :: "nat \<Rightarrow> bool" where
  "py_isspace c =
     ((9 \<le> c \<and> c \<le> 13) \<or> (28 \<le> c \<and> c \<le> 32) \<or> c = 133 \<or> c = 160 \<or> c = 5760 \<or>
      (8192 \<le> c \<and> c \<le> 8202) \<or> c = 8232 \<or> c = 8233 \<or> c = 8239 \<or> c = 8287 \<or> c = 12288)"

definition strip :: "pystr \<Rightarrow> pystr" where
  "strip s = rev (dropWhile py_isspace (rev (dropWhile py_isspace s)))"

text \<open>\<open>s.startswith(p)\<close> and \<open>sub in s\<close>.\<close>

definition startswith :: "pystr \<Rightarrow> pystr \<Rightarrow> bool" where
  "startswith s p = (take (length p) s = p)"

fun py_in :: "pystr \<Rightarrow> pystr \<Rightarrow> bool" where
  "py_in sub [] = (sub = [])"
| "py_in sub (c # cs) = (startswith (c # cs) sub \<or> py_in sub cs)"

text \<open>\<open>c.isascii()\<close> for a one-character string.\<close>

definition isascii :: "nat \<Rightarrow> bool" where
  "isascii c = (c < 128)"

text \<open>
  A \<open>dict\<close> keeps its keys in insertion order; assigning to a key that is present replaces
  the value where it stands, assigning to a new key appends.
\<close>

type_synonym ('k, 'v) dict = "('k \<times> 'v) list"

fun dict_set :: "'k \<Rightarrow> 'v \<Rightarrow> ('k, 'v) dict \<Rightarrow> ('k, 'v) dict" where
  "dict_set k v [] = [(k, v)]"
| "dict_set k v (p # ps) = (if fst p = k then (k, v) # ps else p # dict_set k v ps)"

definition dict_get :: "('k, 'v) dict \<Rightarrow> 'k \<Rightarrow> 'v option" where
  "dict_get d k = map_of d k"

definition dict_values :: "('k, 'v) dict \<Rightarrow> 'v list" where
  "dict_values d = map snd d"

text \<open>
  \<open>xs.sort(key=f, reverse=True)\<close>: descending by key, elements with equal keys staying in
  their original order.
\<close>

definition sort_reverse :: "('a \<Rightarrow> 'k::linorder) \<Rightarrow> 'a list \<Rightarrow> 'a list" where
  "sort_reverse f xs = rev (sort_key f (rev xs))"

section \<open>Data model\<close>

text \<open>
  An article of the stored collection, with the seven keys \<open>process_news_data\<close> writes.
  \<open>title\<close> and \<open>summary\<close> hold what the summarizer returned, a string or \<open>None\<close>.
\<close>

record article =
  a_id :: pystr
  a_date :: pystr
  a_timestamp :: pystr
  a_title :: "pystr option"
  a_source :: pystr
  a_summary :: "pystr option"
  a_link :: pystr

text \<open>
  A feed entry. \<open>e_link\<close> is \<open>entry.get('link', '')\<close>, so an entry without a link has the
  empty string; an absent title, summary or description is \<open>None\<close>. \<open>e_content\<close> is the
  \<open>content\<close> list when the key is present, each element's \<open>value\<close> when it has one.
  \<open>published_parsed\<close> and \<open>updated_parsed\<close> are held as the whole number of seconds
  \<open>time.mktime\<close> gives for them. \<open>e_source_url\<close> is the key the first pass adds.
\<close>

record entry =
  e_link :: pystr
  e_title :: "pystr option"
  e_summary :: "pystr option"
  e_description :: "pystr option"
  e_content :: "pystr option list option"
  e_published_parsed :: "int option"
  e_updated_parsed :: "int option"
  e_source_url :: pystr

text \<open>
  What a run takes from outside: the feed transport, the markup stripper, the summarizer
  (\<open>article_oracle env n title text model_name filter_prompt\<close> is the answer to the call made after
  \<open>n\<close> earlier calls of the run), the identifier generator, the three readings of the clock
  at the start of the run, and the formatting of an instant as a local ISO timestamp and as
  a calendar day.
\<close>

record env =
  fetch_rss_feed :: "pystr \<Rightarrow> entry list"
  clean_html :: "pystr \<Rightarrow> pystr"
  article_oracle :: "nat \<Rightarrow> pystr \<Rightarrow> pystr \<Rightarrow> pystr \<Rightarrow> pystr option \<Rightarrow> pystr option \<times> pystr option"
  uuid4 :: "nat \<Rightarrow> pystr"
  current_time_iso :: pystr
  today_str :: pystr
  now_ts :: int
  isoformat :: "int \<Rightarrow> pystr"
  strftime_ymd :: "int \<Rightarrow> pystr"

text \<open>
  The variables the second loop of \<open>process_news_data\<close> updates, and the list of
  \<open>(title, text)\<close> requests sent to the summarizer so far.
\<close>

record merge_state =
  existing_items_map :: "(pystr, article) dict"
  new_items_count :: nat
  updated_count :: nat
  oracle_log :: "(pystr \<times> pystr) list"

section \<open>First pass: the recency filter\<close>

text \<open>\<open>entry.get('published_parsed') or entry.get('updated_parsed')\<close>.\<close>

definition published_struct :: "entry \<Rightarrow> int option" where
  "published_struct e =
     (case e_published_parsed e of Some t \<Rightarrow> Some t | None \<Rightarrow> e_updated_parsed e)"

text \<open>
  \<open>time.mktime\<close> returns a float whose value is a whole number of seconds, so the two
  times are held as integers; their difference and its quotient by \<open>24 * 3600\<close> are float
  operations, each giving the binary64 number nearest to the exact result, ties going to
  the even significand. \<open>float_round\<close> is that rounding, for results below the largest
  binary64 number in magnitude, as all differences and quotients of such times are:
  \<open>floor_log2 x\<close> is the exponent of the power of two at or below a positive \<open>x\<close>, the
  significand has 53 bits, and the exponent of the last bit is not below \<open>-1074\<close>.
\<close>

definition round_half_even :: "rat \<Rightarrow> int" where
  "round_half_even y =
     (let n = \<lfloor>y\<rfloor>; r = y - of_int n
      in if r < 1 / 2 then n else if 1 / 2 < r then n + 1 else if even n then n else n + 1)"

definition floor_log2 :: "rat \<Rightarrow> int" where
  "floor_log2 x =
     (case quotient_of x of
        (p, q) \<Rightarrow>
          (let k = bitlen p - bitlen q
           in if of_int q * 2 powi k \<le> (of_int p :: rat) then k else k - 1))"

definition float_round :: "rat \<Rightarrow> rat" where
  "float_round x =
     (if x = 0 then 0
      else (let e = max (floor_log2 \<bar>x\<bar> - 52) (- 1074)
            in of_int (round_half_even (x / 2 powi e)) * 2 powi e))"

text \<open>\<open>(now_ts - published_ts) / (24 * 3600)\<close>.\<close>

definition diff_days :: "int \<Rightarrow> int \<Rightarrow> rat" where
  "diff_days now published_ts =
     float_round (float_round (of_int now - of_int published_ts) / (24 * 3600))"

fun filter_entries :: "env \<Rightarrow> int \<Rightarrow> pystr \<Rightarrow> entry list \<Rightarrow> entry list" where
  "filter_entries env days_limit url [] = []"
| "filter_entries env days_limit url (e # es) =
     (if e_link e = [] then filter_entries env days_limit url es
      else
        (case published_struct e of
           Some published_ts \<Rightarrow>
             if diff_days (now_ts env) published_ts > of_int days_limit
             then filter_entries env days_limit url es
             else e\<lparr>e_source_url := url\<rparr> # filter_entries env days_limit url es
         | None \<Rightarrow> e\<lparr>e_source_url := url\<rparr> # filter_entries env days_limit url es))"

fun collect_valid_entries :: "env \<Rightarrow> int \<Rightarrow> pystr list \<Rightarrow> entry list" where
  "collect_valid_entries env days_limit [] = []"
| "collect_valid_entries env days_limit (url # urls) =
     filter_entries env days_limit url (fetch_rss_feed env url)
       @ collect_valid_entries env days_limit urls"

section \<open>Second pass: the merge\<close>

definition original_title :: "entry \<Rightarrow> pystr" where
  "original_title e = (case e_title e of Some t \<Rightarrow> t | None \<Rightarrow> py ''No Title'')"

text \<open>The text handed to the summarizer: content over summary over description, stripped.\<close>

definition clean_text :: "env \<Rightarrow> entry \<Rightarrow> pystr" where
  "clean_text env e =
     (let s1 = (case e_summary e of Some s \<Rightarrow> s | None \<Rightarrow> []);
          summary_text = (if s1 \<noteq> [] then s1
                          else (case e_description e of Some d \<Rightarrow> d | None \<Rightarrow> []));
          summary_text' = (case e_content e of
                             Some (c0 # cs) \<Rightarrow> (case c0 of Some v \<Rightarrow> v | None \<Rightarrow> summary_text)
                           | _ \<Rightarrow> summary_text)
      in clean_html env summary_text')"

definition is_english_summary :: "pystr \<Rightarrow> bool" where
  "is_english_summary curr_summary =
     (case curr_summary of
        [] \<Rightarrow> False
      | c # cs \<Rightarrow> isascii c \<and> \<not> py_in (py ''Error'') curr_summary)"

text \<open>
  The test on the stored summary of an article that is sighted again; \<open>None\<close> stands for a
  stored \<open>None\<close>, which is falsy as the empty string is.
\<close>

fun needs_reprocess :: "pystr option \<Rightarrow> bool" where
  "needs_reprocess None = True"
| "needs_reprocess (Some curr_summary) =
     (curr_summary = [] \<or> strip curr_summary = [] \<or>
      startswith curr_summary (py ''Error'') \<or>
      py_in (py ''Error using AI model'') curr_summary \<or>
      is_english_summary curr_summary)"

text \<open>\<open>should_process\<close> for the article found under the entry's link, if any.\<close>

fun should_process :: "article option \<Rightarrow> bool" where
  "should_process None = True"
| "should_process (Some curr_item) = needs_reprocess (a_summary curr_item)"

definition placeholder :: pystr where
  "placeholder = py ''Content too short to summarize.''"

text \<open>The date and timestamp of an entry: the feed's time when it has one, else the run's.\<close>

definition item_date_str :: "env \<Rightarrow> entry \<Rightarrow> pystr" where
  "item_date_str env e =
     (case published_struct e of Some t \<Rightarrow> strftime_ymd env t | None \<Rightarrow> today_str env)"

definition item_timestamp_iso :: "env \<Rightarrow> entry \<Rightarrow> pystr" where
  "item_timestamp_iso env e =
     (case published_struct e of Some t \<Rightarrow> isoformat env t | None \<Rightarrow> current_time_iso env)"

text \<open>
  The tail of the loop body, from "Determine Timestamp" on: \<open>found\<close> is the article under the
  link (\<open>None\<close> when \<open>is_new\<close>), \<open>processed\<close> is \<open>should_process\<close>, \<open>ai\<close> the pair
  \<open>(ai_title, ai_summary)\<close>.
\<close>

definition apply_entry ::
  "env \<Rightarrow> merge_state \<Rightarrow> entry \<Rightarrow> article option \<Rightarrow> bool \<Rightarrow> pystr option \<times> pystr option
     \<Rightarrow> merge_state" where
  "apply_entry env st e found processed ai =
     (case found of
        None \<Rightarrow>
          st\<lparr>existing_items_map :=
               dict_set (e_link e)
                 \<lparr>a_id = uuid4 env (new_items_count st),
                  a_date = item_date_str env e,
                  a_timestamp = item_timestamp_iso env e,
                  a_title = fst ai,
                  a_source = e_source_url e,
                  a_summary = snd ai,
                  a_link = e_link e\<rparr>
                 (existing_items_map st),
             new_items_count := new_items_count st + 1\<rparr>
      | Some item \<Rightarrow>
          (let item1 = (if processed
                        then (if fst ai = None then item
                              else item\<lparr>a_title := fst ai, a_summary := snd ai\<rparr>)
                        else item);
               old_timestamp = a_timestamp item1;
               item2 = item1\<lparr>a_timestamp := item_timestamp_iso env e,
                             a_date := item_date_str env e\<rparr>
           in st\<lparr>existing_items_map := dict_set (e_link e) item2 (existing_items_map st),
                 updated_count :=
                   (if processed \<or> old_timestamp \<noteq> item_timestamp_iso env e
                    then updated_count st + 1 else updated_count st)\<rparr>))"

text \<open>One iteration of the second loop.\<close>

definition merge_step ::
  "env \<Rightarrow> pystr \<Rightarrow> pystr option \<Rightarrow> merge_state \<Rightarrow> entry \<Rightarrow> merge_state" where
  "merge_step env model_name ai_filter_prompt st e =
     (let found = dict_get (existing_items_map st) (e_link e);
          text = clean_text env e
      in if should_process found then
           (if text = [] \<or> length text < 20 then
              apply_entry env st e found True (Some (original_title e), Some placeholder)
            else
              (let ai = article_oracle env (length (oracle_log st)) (original_title e) (take 4000 text)
                          model_name ai_filter_prompt;
                   st1 = st\<lparr>oracle_log := oracle_log st @ [(original_title e, take 4000 text)]\<rparr>
               in if fst ai = None \<and> snd ai = None then st1
                  else apply_entry env st1 e found True ai))
         else apply_entry env st e found False (None, None))"

fun merge_loop ::
  "env \<Rightarrow> pystr \<Rightarrow> pystr option \<Rightarrow> merge_state \<Rightarrow> entry list \<Rightarrow> merge_state" where
  "merge_loop env model_name ai_filter_prompt st [] = st"
| "merge_loop env model_name ai_filter_prompt st (e # es) =
     merge_loop env model_name ai_filter_prompt (merge_step env model_name ai_filter_prompt st e) es"

text \<open>\<open>{item['link']: item for item in existing_data}\<close>.\<close>

fun items_map :: "article list \<Rightarrow> (pystr, article) dict \<Rightarrow> (pystr, article) dict" where
  "items_map [] d = d"
| "items_map (item # items) d = items_map items (dict_set (a_link item) item d)"

definition initial_state :: "article list \<Rightarrow> merge_state" where
  "initial_state existing_data =
     \<lparr>existing_items_map = items_map existing_data [],
      new_items_count = 0, updated_count = 0, oracle_log = []\<rparr>"

text \<open>The state when the second loop ends.\<close>

definition final_state ::
  "env \<Rightarrow> pystr list \<Rightarrow> article list \<Rightarrow> pystr \<Rightarrow> int \<Rightarrow> pystr option \<Rightarrow> merge_state" where
  "final_state env rss_urls existing_data model_name days_limit ai_filter_prompt =
     merge_loop env model_name ai_filter_prompt (initial_state existing_data)
       (collect_valid_entries env days_limit rss_urls)"

text \<open>
  \<open>process_news_data\<close> without its two optional callbacks, which only report progress:
  the sorted collection and the total of changes.
\<close>

definition process_news_data ::
  "env \<Rightarrow> pystr list \<Rightarrow> article list \<Rightarrow> pystr \<Rightarrow> int \<Rightarrow> pystr option \<Rightarrow> article list \<times> nat" where
  "process_news_data env rss_urls existing_data model_name days_limit ai_filter_prompt =
     (let st = final_state env rss_urls existing_data model_name days_limit ai_filter_prompt;
          updated_data = sort_reverse a_timestamp (dict_values (existing_items_map st));
          total_changes = new_items_count st + updated_count st
      in (updated_data, total_changes))"

section \<open>The summarizer\<close>

text \<open>
  What \<open>json.loads\<close> makes of a response: a decoding error, a value that is not an object
  (with the text of the \<open>AttributeError\<close> its \<open>.get\<close> raises), or an object. Of an object
  the function reads three keys: \<open>is_relevant\<close> (\<open>Some False\<close> for the JSON \<open>false\<close>,
  which is all the code tests for), \<open>title\<close> and \<open>summary\<close> (absent, or a string or
  \<open>null\<close>).
\<close>

record response_doc =
  is_relevant :: "bool option"
  r_title :: "pystr option option"
  r_summary :: "pystr option option"

datatype json_result = JSONDecodeError | NotAnObject pystr | JsonObject response_doc

text \<open>
  What \<open>process_article_content\<close> takes from outside. An exception is \<open>Inl\<close> of its
  message. \<open>call_ai env k model filter_prompt title text\<close> is the content of the message the
  \<open>k\<close>-th request of this call gets from \<open>model\<close>, for the two prompts built from
  \<open>filter_prompt\<close>, \<open>title\<close> and \<open>text\<close>.
\<close>

record ai_env =
  secrets_api_key :: "pystr + pystr option"
  lower :: "pystr \<Rightarrow> pystr"
  call_ai :: "nat \<Rightarrow> pystr \<Rightarrow> pystr \<Rightarrow> pystr \<Rightarrow> pystr \<Rightarrow> pystr + pystr option"
  json_loads :: "pystr \<Rightarrow> json_result"

definition error_using_ai_model :: "pystr \<Rightarrow> pystr" where
  "error_using_ai_model msg = py ''Error using AI model: '' @ msg"

definition default_filter_prompt :: pystr where
  "default_filter_prompt =
     py ''Is this article related to Artificial Intelligence, Machine Learning, or LLMs?''"

text \<open>\<open>not content or not content.strip()\<close>.\<close>

fun no_content :: "pystr option \<Rightarrow> bool" where
  "no_content None = True"
| "no_content (Some c) = (c = [] \<or> strip c = [])"

text \<open>
  The requests: the chosen model, the fallback model when that raises, and one more request
  to the fallback model when the content is empty and the fallback was not the one asked.
\<close>

definition fetch_content ::
  "ai_env \<Rightarrow> pystr \<Rightarrow> pystr \<Rightarrow> pystr \<Rightarrow> pystr \<Rightarrow> pystr + pystr option" where
  "fetch_content env openai_model filter_prompt title body =
     (case call_ai env 0 openai_model filter_prompt title body of
        Inr content \<Rightarrow>
          if no_content content \<and> openai_model \<noteq> py ''gpt-4o-mini''
          then call_ai env 1 (py ''gpt-4o-mini'') filter_prompt title body
          else Inr content
      | Inl ex \<Rightarrow>
          (case call_ai env 1 (py ''gpt-4o-mini'') filter_prompt title body of
             Inr content \<Rightarrow> Inr content
           | Inl ex' \<Rightarrow> Inl ex'))"

definition interpret_content ::
  "ai_env \<Rightarrow> pystr \<Rightarrow> pystr option \<Rightarrow> pystr option \<times> pystr option" where
  "interpret_content env title content =
     (case content of
        None \<Rightarrow> (Some title, Some (py ''Error: Empty summary returned by AI.''))
      | Some c \<Rightarrow>
          if c = [] then (Some title, Some (py ''Error: Empty summary returned by AI.''))
          else
            (case json_loads env c of
               JSONDecodeError \<Rightarrow> (Some title, Some c)
             | NotAnObject msg \<Rightarrow> (Some title, Some (error_using_ai_model msg))
             | JsonObject data \<Rightarrow>
                 if is_relevant data = Some False then (None, None)
                 else ((case r_title data of None \<Rightarrow> Some title | Some v \<Rightarrow> v),
                       (case r_summary data of None \<Rightarrow> Some [] | Some v \<Rightarrow> v))))"

text \<open>The model asked first, and the criterion put into the prompt.\<close>

definition chosen_model :: "pystr \<Rightarrow> pystr" where
  "chosen_model model_name =
     (if model_name = py ''chatgpt-5-mini'' \<or> model_name = py ''gpt-5-mini''
      then py ''gpt-5-mini'' else model_name)"

definition chosen_filter_prompt :: "pystr option \<Rightarrow> pystr" where
  "chosen_filter_prompt filter_prompt =
     (case filter_prompt of
        None \<Rightarrow> default_filter_prompt
      | Some f \<Rightarrow> if f = [] then default_filter_prompt else f)"

definition process_article_content ::
  "ai_env \<Rightarrow> pystr \<Rightarrow> pystr \<Rightarrow> pystr \<Rightarrow> pystr option \<Rightarrow> pystr option \<times> pystr option" where
  "process_article_content env title body model_name filter_prompt =
     (case secrets_api_key env of
        Inl ex \<Rightarrow> (Some title, Some (error_using_ai_model ex))
      | Inr api_key \<Rightarrow>
          if api_key = None \<or> api_key = Some []
          then (Some title, Some (py ''Error: OPENAI_API_KEY not found in secrets.''))
          else if py_in (py ''gemini'') (lower env model_name)
          then (Some title, Some (py ''Error: Gemini model support not yet implemented.''))
          else
            (case fetch_content env (chosen_model model_name)
                    (chosen_filter_prompt filter_prompt) title body of
               Inl ex \<Rightarrow> (Some title, Some (error_using_ai_model ex))
             | Inr content \<Rightarrow> interpret_content env title content))"

section \<open>The scheduler\<close>

text \<open>
  The documents of the store, each \<open>None\<close> while its file does not exist. Of
  \<open>config.json\<close> and \<open>stats.json\<close> the keys the scheduler reads or writes are kept, a key
  that is absent being \<open>None\<close>; of \<open>logs.json\<close> the status and the stamp, the log lines and
  their intermediate flushes being left out.
\<close>

record config =
  enable_auto_scrape :: "bool option"
  update_interval_minutes :: "int option"
  rss_urls :: "pystr list option"
  days_to_scrape :: "int option"
  openai_model :: "pystr option"
  ai_filter_prompt :: "pystr option"

record stats =
  last_auto_scrape :: "pystr option"
  scraped_count :: "(pystr, nat) dict option"

record logs =
  last_updated :: pystr
  status :: pystr

record store =
  news_data_json :: "article list option"
  config_json :: "config option"
  stats_json :: "stats option"
  logs_json :: "logs option"

text \<open>
  What one pass of the scheduler's loop takes from outside: whether the repository is
  reached for a read, and for the write of a file; \<open>datetime.fromisoformat\<close> as seconds
  (\<open>None\<close> when it raises); the clock when the pass checks whether a run is due, when the
  run has ended (as ISO text, as the day, and as the stamp of the log); and the run of
  \<open>process_news_data\<close> with the logger as its callback, \<open>Inl\<close> when it raised.
\<close>

record sched_env =
  load_ok :: bool
  save_ok :: "pystr \<Rightarrow> bool"
  fromisoformat :: "pystr \<Rightarrow> rat option"
  now_at_check :: rat
  now_at_end_iso :: pystr
  today_at_end :: pystr
  log_stamp :: pystr
  pipeline :: "pystr list \<Rightarrow> article list \<Rightarrow> pystr \<Rightarrow> int \<Rightarrow> pystr option
                 \<Rightarrow> pystr + article list \<times> nat"

definition DEFAULT_CONFIG :: config where
  "DEFAULT_CONFIG =
     \<lparr>enable_auto_scrape = None,
      update_interval_minutes = Some 180,
      rss_urls = Some [py ''https://feeds.feedburner.com/TechCrunch/startups'',
                       py ''https://www.theverge.com/rss/index.xml''],
      days_to_scrape = Some 3,
      openai_model = None,
      ai_filter_prompt = Some default_filter_prompt\<rparr>"

definition default_stats :: stats where
  "default_stats = \<lparr>last_auto_scrape = None, scraped_count = Some []\<rparr>"

text \<open>\<open>load_data_from_github(filename, default_value)\<close>, for a document of the store.\<close>

definition load_data_from_github :: "sched_env \<Rightarrow> 'a option \<Rightarrow> 'a \<Rightarrow> 'a" where
  "load_data_from_github env doc default_value =
     (if load_ok env then (case doc of Some d \<Rightarrow> d | None \<Rightarrow> default_value)
      else default_value)"

text \<open>\<open>save_data_to_github\<close> for each of the three files the scheduler writes.\<close>

definition save_news :: "sched_env \<Rightarrow> article list \<Rightarrow> store \<Rightarrow> store" where
  "save_news env d s =
     (if save_ok env (py ''news_data.json'') then s\<lparr>news_data_json := Some d\<rparr> else s)"

definition save_stats :: "sched_env \<Rightarrow> stats \<Rightarrow> store \<Rightarrow> store" where
  "save_stats env d s =
     (if save_ok env (py ''stats.json'') then s\<lparr>stats_json := Some d\<rparr> else s)"

definition save_logs_to_github :: "sched_env \<Rightarrow> logs \<Rightarrow> store \<Rightarrow> store" where
  "save_logs_to_github env d s =
     (if save_ok env (py ''logs.json'') then s\<lparr>logs_json := Some d\<rparr> else s)"

text \<open>Step 4 of the run: the stats with the time of the run and today's counter.\<close>

definition update_stats :: "sched_env \<Rightarrow> stats \<Rightarrow> stats" where
  "update_stats env st =
     (let counts = (case scraped_count st of Some c \<Rightarrow> c | None \<Rightarrow> []);
          counts' = (case dict_get counts (today_at_end env) of
                       Some n \<Rightarrow> counts
                     | None \<Rightarrow> dict_set (today_at_end env) 0 counts)
      in st\<lparr>last_auto_scrape := Some (now_at_end_iso env), scraped_count := Some counts'\<rparr>)"

text \<open>Steps 1 and 2 of the run: load the collection and process it.\<close>

definition run_pipeline :: "sched_env \<Rightarrow> config \<Rightarrow> store \<Rightarrow> pystr + article list \<times> nat" where
  "run_pipeline env cfg s =
     (let news_data = load_data_from_github env (news_data_json s) [];
          urls = (case rss_urls cfg of Some u \<Rightarrow> u
                  | None \<Rightarrow> (case rss_urls DEFAULT_CONFIG of Some u \<Rightarrow> u | None \<Rightarrow> []));
          days_limit = (case days_to_scrape cfg of Some d \<Rightarrow> d | None \<Rightarrow> 3);
          model_name = (case openai_model cfg of Some m \<Rightarrow> m | None \<Rightarrow> py ''gpt-4o-mini'')
      in pipeline env urls news_data model_name days_limit (ai_filter_prompt cfg))"

text \<open>The body of \<open>if enable_auto and time_since_run > interval_sec\<close>.\<close>

definition auto_scrape :: "sched_env \<Rightarrow> config \<Rightarrow> stats \<Rightarrow> store \<Rightarrow> store" where
  "auto_scrape env cfg st s =
     (case run_pipeline env cfg s of
        Inr (updated_news, changes) \<Rightarrow>
          (let s1 = (if changes > 0 then save_news env updated_news s else s);
               s2 = save_stats env (update_stats env st) s1
           in save_logs_to_github env
                \<lparr>last_updated = log_stamp env, status = py ''idle''\<rparr> s2)
      | Inl ex \<Rightarrow>
          save_logs_to_github env
            \<lparr>last_updated = log_stamp env, status = py ''error''\<rparr> s)"

text \<open>Whether the pass starts a run; \<open>None\<close> when the stored time of the last run does not parse.\<close>

definition run_due :: "sched_env \<Rightarrow> config \<Rightarrow> stats \<Rightarrow> bool option" where
  "run_due env cfg st =
     (let enable_auto = (case enable_auto_scrape cfg of Some b \<Rightarrow> b | None \<Rightarrow> False);
          interval_sec = (case update_interval_minutes cfg of Some m \<Rightarrow> m | None \<Rightarrow> 180) * 60;
          last_run_str = (case last_auto_scrape st of Some t \<Rightarrow> t
                          | None \<Rightarrow> py ''2000-01-01T00:00:00'')
      in case fromisoformat env last_run_str of
           None \<Rightarrow> None
         | Some last_run \<Rightarrow>
             Some (enable_auto \<and> now_at_check env - last_run > of_int interval_sec))"

text \<open>The two documents the pass re-reads at its start.\<close>

definition loaded_config :: "sched_env \<Rightarrow> store \<Rightarrow> config" where
  "loaded_config env s = load_data_from_github env (config_json s) DEFAULT_CONFIG"

definition loaded_stats :: "sched_env \<Rightarrow> store \<Rightarrow> stats" where
  "loaded_stats env s = load_data_from_github env (stats_json s) default_stats"

text \<open>One pass of the \<open>while True\<close> loop of \<open>run_scheduler\<close>, up to its sleep.\<close>

definition scheduler_pass :: "sched_env \<Rightarrow> store \<Rightarrow> store" where
  "scheduler_pass env s =
     (let cfg = loaded_config env s;
          st = loaded_stats env s
      in case run_due env cfg st of
           None \<Rightarrow> s
         | Some due \<Rightarrow> if due then auto_scrape env cfg st s else s)"

section \<open>Invariant of the working dictionary\<close>

text \<open>Keys are distinct and every article sits under its own link.\<close>

definition keyed :: "(pystr, article) dict \<Rightarrow> bool" where
  "keyed d = (distinct (map fst d) \<and> (\<forall>p\<in>set d. a_link (snd p) = fst p))"

section \<open>Example inputs\<close>

text \<open>An article whose stored summary is a single space.\<close>

definition blank_article :: article where
  "blank_article =
     \<lparr>a_id = py ''id-1'', a_date = py ''2024-01-01'', a_timestamp = py ''2024-01-01T00:00:00'',
      a_title = Some (py ''t''), a_source = py ''feed'', a_summary = Some (py '' ''),
      a_link = py ''L''\<rparr>"

text \<open>
  A feed with the given entries behind one address, markup stripping that leaves plain text
  as it is, a summarizer that answers by the body alone, and a clock standing at
  2024-01-10 12:00:00, one day after the instant 1704801600.
\<close>

definition feed_url :: pystr where
  "feed_url = py ''https://example.org/feed''"

definition long_body :: pystr where
  "long_body = py ''A body that is long enough to be summarized.''"

definition demo_entry :: "pystr \<Rightarrow> pystr \<Rightarrow> int option \<Rightarrow> entry" where
  "demo_entry link body published =
     \<lparr>e_link = link, e_title = Some (py ''Title''), e_summary = Some body,
      e_description = None, e_content = None, e_published_parsed = published,
      e_updated_parsed = None, e_source_url = feed_url\<rparr>"

definition demo_env :: "entry list \<Rightarrow> (pystr \<Rightarrow> pystr option \<times> pystr option) \<Rightarrow> env" where
  "demo_env entries answer =
     \<lparr>fetch_rss_feed = (\<lambda>url. if url = feed_url then entries else []),
      clean_html = (\<lambda>s. s),
      article_oracle = (\<lambda>n title body model_name filter_prompt. answer body),
      uuid4 = (\<lambda>n. py ''uuid-'' @ [48 + n]),
      current_time_iso = py ''2024-01-10T12:00:00'',
      today_str = py ''2024-01-10'',
      now_ts = 1704888000,
      isoformat = (\<lambda>t. if t = 1704801600 then py ''2024-01-09T12:00:00''
                        else py ''2024-01-09T11:59:59''),
      strftime_ymd = (\<lambda>t. py ''2024-01-09'')\<rparr>"

definition irrelevant :: "pystr \<Rightarrow> pystr option \<times> pystr option" where
  "irrelevant body = (None, None)"

text \<open>
  A summarizer setting in which the key is present and every request is answered with the
  given text, decoded by a decoder that accepts the empty object only.
\<close>

definition demo_ai_env :: "pystr \<Rightarrow> ai_env" where
  "demo_ai_env response =
     \<lparr>secrets_api_key = Inr (Some (py ''sk-test'')),
      lower = (\<lambda>s. s),
      call_ai = (\<lambda>k model filter_prompt title body. Inr (Some response)),
      json_loads = (\<lambda>c. if c = py ''{}''
                         then JsonObject \<lparr>is_relevant = None, r_title = None, r_summary = None\<rparr>
                         else JSONDecodeError)\<rparr>"

text \<open>
  A scheduler pass at 2024-01-10 12:00:00 over a store whose last automatic run was a day
  earlier, with automatic runs enabled every 180 minutes, and a run of the pipeline that
  ends with the given outcome.
\<close>

definition demo_sched_env :: "(pystr + article list \<times> nat) \<Rightarrow> sched_env" where
  "demo_sched_env outcome =
     \<lparr>load_ok = True,
      save_ok = (\<lambda>filename. True),
      fromisoformat = (\<lambda>t. if t = py ''2024-01-09T12:00:00'' then Some 1704801600 else None),
      now_at_check = 1704888000,
      now_at_end_iso = py ''2024-01-10T12:00:05'',
      today_at_end = py ''2024-01-10'',
      log_stamp = py ''2024-01-10 12:00:05'',
      pipeline = (\<lambda>urls news_data model_name days_limit filter_prompt. outcome)\<rparr>"

definition demo_store :: store where
  "demo_store =
     \<lparr>news_data_json = None,
      config_json = Some \<lparr>enable_auto_scrape = Some True, update_interval_minutes = Some 180,
                          rss_urls = Some [feed_url], days_to_scrape = Some 3,
                          openai_model = None, ai_filter_prompt = None\<rparr>,
      stats_json = Some \<lparr>last_auto_scrape = Some (py ''2024-01-09T12:00:00''),
                         scraped_count = Some []\<rparr>,
      logs_json = None\<rparr>"

text \<open>A stored article with an empty summary, dated eight days before the feed's time.\<close>

definition stale_article :: article where
  "stale_article =
     \<lparr>a_id = py ''id-1'', a_date = py ''2024-01-01'', a_timestamp = py ''2024-01-01T00:00:00'',
      a_title = Some (py ''Old title''), a_source = feed_url, a_summary = Some [],
      a_link = py ''L1''\<rparr>"

text \<open>
  An entry whose body has nine characters, and the article the merge makes of it.
\<close>

definition short_entry :: entry where
  "short_entry = demo_entry (py ''L1'') (py ''too short'') (Some 1704801600)"

definition short_article :: article where
  "short_article =
     \<lparr>a_id = py ''uuid-0'', a_date = py ''2024-01-09'', a_timestamp = py ''2024-01-09T12:00:00'',
      a_title = Some (py ''Title''), a_source = feed_url, a_summary = Some placeholder,
      a_link = py ''L1''\<rparr>"

text \<open>
  A run whose summarizer is \<open>process_article_content\<close> in the setting above.
\<close>

definition raw_response_env :: "pystr \<Rightarrow> env" where
  "raw_response_env response =
     (demo_env [] irrelevant)
       \<lparr>article_oracle := (\<lambda>n. process_article_content (demo_ai_env response))\<rparr>"

section \<open>Strings and dictionaries\<close>

lemma dict_get_dict_set: "dict_get (dict_set k v d) k' = (if k' = k then Some v else dict_get d k')"
  by (induction d) (auto simp: dict_get_def)

lemma strip_empty_iff: "strip s = [] \<longleftrightarrow> (\<forall>c\<in>set s. py_isspace c)"
proof
  assume "strip s = []"
  then have all: "\<forall>c\<in>set (dropWhile py_isspace s). py_isspace c"
    by (simp add: strip_def)
  have "dropWhile py_isspace s = []"
  proof (cases "dropWhile py_isspace s")
    case Nil
    then show ?thesis .
  next
    case (Cons x xs)
    then have "\<not> py_isspace x" using hd_dropWhile[of py_isspace s] by auto
    moreover have "x \<in> set (dropWhile py_isspace s)" using Cons by simp
    ultimately show ?thesis using all by blast
  qed
  then show "\<forall>c\<in>set s. py_isspace c" by simp
next
  assume "\<forall>c\<in>set s. py_isspace c"
  then have d: "dropWhile py_isspace s = []" by simp
  show "strip s = []" unfolding strip_def d by simp
qed

lemma startswith_iff: "startswith s p \<longleftrightarrow> (\<exists>q. s = p @ q)"
proof
  assume "startswith s p"
  then have "s = p @ drop (length p) s"
    unfolding startswith_def by (metis append_take_drop_id)
  then show "\<exists>q. s = p @ q" ..
next
  assume "\<exists>q. s = p @ q"
  then show "startswith s p" by (auto simp: startswith_def)
qed

lemma py_in_iff: "py_in sub s \<longleftrightarrow> (\<exists>p q. s = p @ sub @ q)"
proof (induction s)
  case Nil
  then show ?case by auto
next
  case (Cons c cs)
  show ?case
  proof
    assume "py_in sub (c # cs)"
    then consider "startswith (c # cs) sub" | "py_in sub cs" by auto
    then show "\<exists>p q. c # cs = p @ sub @ q"
    proof cases
      case 1
      then obtain q where "c # cs = sub @ q" using startswith_iff by blast
      then have "c # cs = [] @ sub @ q" by simp
      then show ?thesis by blast
    next
      case 2
      then obtain p q where "cs = p @ sub @ q" using Cons.IH by blast
      then have "c # cs = (c # p) @ sub @ q" by simp
      then show ?thesis by blast
    qed
  next
    assume "\<exists>p q. c # cs = p @ sub @ q"
    then obtain p q where pq: "c # cs = p @ sub @ q" by blast
    show "py_in sub (c # cs)"
    proof (cases p)
      case Nil
      with pq have "startswith (c # cs) sub" using startswith_iff by auto
      then show ?thesis by simp
    next
      case (Cons x xs)
      with pq have "cs = xs @ sub @ q" by simp
      then have "py_in sub cs" using Cons.IH by blast
      then show ?thesis by simp
    qed
  qed
qed

section \<open>The reprocess heuristic\<close>

text \<open>
  C3, as the code has it. An existing article sighted again is selected for reprocessing
  exactly when its stored summary is \<open>None\<close>, or is empty or made of whitespace only, or
  starts with \<open>Error\<close>, or contains \<open>Error using AI model\<close>, or starts with an ASCII
  character (a letter or not) and does not contain \<open>Error\<close> anywhere. So a summary that
  starts with a non-ASCII character, is not whitespace only and does not contain \<open>Error\<close>
  is not selected.
\<close>

theorem reprocess_selection:
  "should_process (Some a) \<longleftrightarrow>
     (case a_summary a of
        None \<Rightarrow> True
      | Some s \<Rightarrow>
          (\<forall>c\<in>set s. py_isspace c) \<or>
          (\<exists>q. s = py ''Error'' @ q) \<or>
          (\<exists>p q. s = p @ py ''Error using AI model'' @ q) \<or>
          (\<exists>c cs. s = c # cs \<and> c < 128 \<and> \<not> (\<exists>p q. s = p @ py ''Error'' @ q)))"
proof (cases "a_summary a")
  case None
  then show ?thesis by simp
next
  case (Some s)
  have e: "is_english_summary s \<longleftrightarrow>
      (\<exists>c cs. s = c # cs \<and> c < 128 \<and> \<not> (\<exists>p q. s = p @ py ''Error'' @ q))"
    by (cases s) (simp_all add: is_english_summary_def isascii_def py_in_iff)
  have n: "s = [] \<or> strip s = [] \<longleftrightarrow> (\<forall>c\<in>set s. py_isspace c)"
    using strip_empty_iff[of s] by auto
  have "should_process (Some a) \<longleftrightarrow>
      (s = [] \<or> strip s = []) \<or> startswith s (py ''Error'') \<or>
      py_in (py ''Error using AI model'') s \<or> is_english_summary s"
    using Some by auto
  then show ?thesis
    unfolding e n startswith_iff py_in_iff using Some by simp
qed

theorem reprocess_selection_witness:
  "a_summary blank_article = Some (py '' '') \<and> should_process (Some blank_article)"
proof -
  have h: "\<forall>c\<in>set (py '' ''). py_isspace c" by (simp add: py_def py_isspace_def)
  show ?thesis using h reprocess_selection[of blank_article] by (simp add: blank_article_def)
qed

text \<open>
  Two summaries that contain the marker \<open>Error\<close> and are not selected: one that starts
  with the Hangul syllable U+D55C (54620) and goes on with \<open> Error 404\<close>, and
  \<open>An Error occurred\<close>, which also starts with an ASCII letter.
\<close>

theorem reprocess_selection_counterexample:
  "py_in (py ''Error'') (54620 # py '' Error 404'')
   \<and> \<not> should_process (Some (blank_article\<lparr>a_summary := Some (54620 # py '' Error 404'')\<rparr>))
   \<and> py_in (py ''Error'') (py ''An Error occurred'')
   \<and> \<not> should_process (Some (blank_article\<lparr>a_summary := Some (py ''An Error occurred'')\<rparr>))"
  by (simp add: py_def startswith_def is_english_summary_def isascii_def strip_def py_isspace_def)

section \<open>The working dictionary keeps one article per link\<close>

lemma keys_dict_set:
  "map fst (dict_set k v d) = (if k \<in> set (map fst d) then map fst d else map fst d @ [k])"
  by (induction d) auto

lemma set_dict_set: "set (dict_set k v d) \<subseteq> insert (k, v) (set d)"
  by (induction d) auto

lemma keyed_dict_set:
  assumes "keyed d" and "a_link v = k"
  shows "keyed (dict_set k v d)"
proof -
  have "distinct (map fst (dict_set k v d))"
    using assms(1) by (simp add: keys_dict_set keyed_def)
  moreover have "\<forall>p\<in>set (dict_set k v d). a_link (snd p) = fst p"
    using assms set_dict_set[of k v d] by (auto simp: keyed_def)
  ultimately show ?thesis by (simp add: keyed_def)
qed

lemma keyed_items_map: "keyed d \<Longrightarrow> keyed (items_map xs d)"
  by (induction xs arbitrary: d) (simp_all add: keyed_dict_set)

lemma keyed_lookup: "keyed d \<Longrightarrow> dict_get d k = Some item \<Longrightarrow> a_link item = k"
  by (auto simp: keyed_def dict_get_def dest!: map_of_SomeD)

lemma keyed_apply_entry:
  assumes "keyed (existing_items_map st)"
    and "found = dict_get (existing_items_map st) (e_link e)"
  shows "keyed (existing_items_map (apply_entry env st e found processed ai))"
proof (cases found)
  case None
  then show ?thesis using assms(1) by (simp add: apply_entry_def keyed_dict_set)
next
  case (Some item)
  then have "a_link item = e_link e" using assms keyed_lookup by metis
  then show ?thesis using assms(1) Some
    by (simp add: apply_entry_def Let_def keyed_dict_set)
qed

lemma keyed_merge_step:
  assumes "keyed (existing_items_map st)"
  shows "keyed (existing_items_map (merge_step env m f st e))"
proof -
  have a: "\<And>p ai. keyed (existing_items_map
              (apply_entry env st e (dict_get (existing_items_map st) (e_link e)) p ai))"
    using assms keyed_apply_entry by blast
  have b: "\<And>p ai l. keyed (existing_items_map
              (apply_entry env (st\<lparr>oracle_log := l\<rparr>) e
                 (dict_get (existing_items_map st) (e_link e)) p ai))"
    using assms keyed_apply_entry[of "st\<lparr>oracle_log := l\<rparr>" for l] by simp
  show ?thesis
    unfolding merge_step_def Let_def using a b assms by simp
qed

lemma keyed_merge_loop:
  "keyed (existing_items_map st) \<Longrightarrow> keyed (existing_items_map (merge_loop env m f st es))"
  by (induction es arbitrary: st) (simp_all add: keyed_merge_step)

lemma keyed_final_state:
  "keyed (existing_items_map (final_state env urls existing m d f))"
proof -
  have "keyed ([] :: (pystr, article) dict)" by (simp add: keyed_def)
  then have "keyed (existing_items_map (initial_state existing))"
    by (simp add: initial_state_def keyed_items_map)
  then show ?thesis unfolding final_state_def by (rule keyed_merge_loop)
qed

lemma keyed_links: "keyed d \<Longrightarrow> map a_link (dict_values d) = map fst d"
  by (simp add: keyed_def dict_values_def)

lemma distinct_map_sort_reverse:
  "distinct (map g (sort_reverse f xs)) = distinct (map g xs)"
  by (simp add: sort_reverse_def distinct_map)

text \<open>
  C6. For every run of the merge engine, whatever the stored collection, the feeds and the
  summarizer's answers are, no two articles of the returned collection have the same link.
\<close>

theorem output_links_unique:
  "distinct (map a_link (fst (process_news_data env urls existing m d f)))"
proof -
  let ?d = "existing_items_map (final_state env urls existing m d f)"
  have k: "keyed ?d" by (rule keyed_final_state)
  then have "distinct (map a_link (dict_values ?d))"
    by (simp add: keyed_links) (simp add: keyed_def)
  then show ?thesis
    by (simp add: process_news_data_def Let_def distinct_map_sort_reverse)
qed

section \<open>The returned collection is sorted\<close>

lemma sorted_wrt_sort_reverse:
  "sorted_wrt (\<lambda>a b. f b \<le> f a) (sort_reverse f xs)"
proof -
  have "sorted (map f (sort_key f (rev xs)))" by (rule sorted_sort_key)
  then have "sorted_wrt (\<lambda>a b. f a \<le> f b) (sort_key f (rev xs))"
    by (simp add: sorted_map)
  then show ?thesis by (simp add: sort_reverse_def sorted_wrt_rev)
qed

text \<open>
  C5. For every stored collection and every candidate set, the returned collection is
  sorted by timestamp in descending order: of two articles, the one that comes first has
  the greater or equal timestamp.
\<close>

theorem output_sorted_by_timestamp:
  "sorted_wrt (\<lambda>a b. a_timestamp b \<le> a_timestamp a)
     (fst (process_news_data env urls existing m d f))"
  by (simp add: process_news_data_def Let_def sorted_wrt_sort_reverse)

section \<open>Float rounding\<close>

lemma round_half_even_int [simp]: "round_half_even (of_int m) = m"
  by (simp add: round_half_even_def)

lemma round_half_even_ge_floor: "\<lfloor>y\<rfloor> \<le> round_half_even y"
  by (simp add: round_half_even_def Let_def)

lemma bitlen_powi_bounds:
  assumes "0 < p"
  shows "2 powi (bitlen p - 1) \<le> (of_int p :: rat) \<and> (of_int p :: rat) < 2 powi bitlen p"
proof -
  have b: "2 ^ nat (bitlen p - 1) \<le> p \<and> p < 2 ^ nat (bitlen p)"
    using assms by (rule bitlen_bounds)
  have ge: "1 \<le> bitlen p" using assms bitlen_eq_zero_iff[of p] bitlen_nonneg[of p] by linarith
  have "(of_int (2 ^ nat (bitlen p - 1)) :: rat) \<le> of_int p"
    using b by (simp only: of_int_le_iff)
  then have 1: "2 powi (bitlen p - 1) \<le> (of_int p :: rat)"
    using ge by (simp add: power_int_def)
  have "(of_int p :: rat) < of_int (2 ^ nat (bitlen p))"
    using b by (simp only: of_int_less_iff)
  then have 2: "(of_int p :: rat) < 2 powi bitlen p"
    using ge by (simp add: power_int_def)
  show ?thesis using 1 2 by simp
qed

lemma floor_log2_bounds:
  assumes "0 < x"
  shows "2 powi floor_log2 x \<le> x \<and> x < 2 powi (floor_log2 x + 1)"
proof -
  obtain p q where pq: "quotient_of x = (p, q)" by (cases "quotient_of x")
  then have q: "0 < q" by (rule quotient_of_denom_pos)
  have x: "x = of_int p / of_int q" using pq by (rule quotient_of_div)
  have p: "0 < p"
    using assms q unfolding x by (simp add: zero_less_divide_iff)
  let ?k = "bitlen p - bitlen q"
  have qr: "(0::rat) < of_int q" using q by simp
  have bp: "2 powi (bitlen p - 1) \<le> (of_int p :: rat)" "(of_int p :: rat) < 2 powi bitlen p"
    using bitlen_powi_bounds[OF p] by simp_all
  have bq: "2 powi (bitlen q - 1) \<le> (of_int q :: rat)" "(of_int q :: rat) < 2 powi bitlen q"
    using bitlen_powi_bounds[OF q] by simp_all
  have up: "(of_int p :: rat) < of_int q * 2 powi (?k + 1)"
  proof -
    have "2 powi bitlen p = (2 powi (bitlen q - 1) :: rat) * 2 powi (?k + 1)"
      by (simp flip: power_int_add)
    also have "\<dots> \<le> of_int q * 2 powi (?k + 1)"
      using bq(1) by (intro mult_right_mono) simp_all
    finally show ?thesis using bp(2) by simp
  qed
  have lo: "of_int q * 2 powi (?k - 1) \<le> (of_int p :: rat)"
  proof -
    have "of_int q * 2 powi (?k - 1) \<le> (2 powi bitlen q :: rat) * 2 powi (?k - 1)"
      using bq(2) by (intro mult_right_mono) simp_all
    also have "\<dots> = 2 powi (bitlen p - 1)"
      by (simp flip: power_int_add)
    finally show ?thesis using bp(1) by simp
  qed
  show ?thesis
  proof (cases "of_int q * 2 powi ?k \<le> (of_int p :: rat)")
    case True
    then have f: "floor_log2 x = ?k" by (simp add: floor_log2_def pq)
    have "2 powi ?k \<le> x \<and> x < 2 powi (?k + 1)"
      unfolding x using True up qr
      by (simp add: pos_le_divide_eq pos_divide_less_eq mult.commute)
    then show ?thesis unfolding f .
  next
    case False
    then have f: "floor_log2 x = ?k - 1" by (simp add: floor_log2_def pq)
    have "2 powi (?k - 1) \<le> x \<and> x < 2 powi (?k - 1 + 1)"
      unfolding x using False lo qr
      by (simp add: pos_le_divide_eq pos_divide_less_eq mult.commute not_le)
    then show ?thesis unfolding f .
  qed
qed

lemma two_powi_minus_17: "(2::rat) powi (- 17) = 1 / 131072"
proof -
  have "(2::rat) powi (- 17) = 1 / 2 powi 17" by (rule power_int_minus_divide)
  also have "(2::rat) powi 17 = 131072" by simp
  finally show ?thesis .
qed

lemma floor_log2_less:
  assumes "0 < x" and "x < 2 powi n"
  shows "floor_log2 x < n"
proof (rule ccontr)
  assume "\<not> floor_log2 x < n"
  then have "(2::rat) powi n \<le> 2 powi floor_log2 x"
    by (intro power_int_increasing) simp_all
  then show False using floor_log2_bounds[OF assms(1)] assms(2) by simp
qed

lemma floor_log2_ge:
  assumes "0 < x" and "2 powi n \<le> x"
  shows "n \<le> floor_log2 x"
proof (rule ccontr)
  assume "\<not> n \<le> floor_log2 x"
  then have "(2::rat) powi (floor_log2 x + 1) \<le> 2 powi n"
    by (intro power_int_increasing) simp_all
  then show False using floor_log2_bounds[OF assms(1)] assms(2) by simp
qed

lemma float_round_of_int:
  assumes "\<bar>n\<bar> < 2 ^ 53"
  shows "float_round (of_int n) = of_int n"
proof (cases "n = 0")
  case True
  then show ?thesis by (simp add: float_round_def)
next
  case False
  let ?x = "of_int n :: rat"
  let ?L = "floor_log2 \<bar>?x\<bar>"
  have pos: "0 < \<bar>?x\<bar>" using False by simp
  have "(2::rat) powi 0 \<le> \<bar>?x\<bar>"
  proof -
    have "1 \<le> \<bar>n\<bar>" using False by simp
    then have "(1::rat) \<le> of_int \<bar>n\<bar>" by (simp only: of_int_1_le_iff)
    then show ?thesis by simp
  qed
  then have lo: "0 \<le> ?L" using pos by (intro floor_log2_ge)
  have "\<bar>?x\<bar> < 2 powi 53"
  proof -
    have "(of_int \<bar>n\<bar> :: rat) < of_int (2 ^ 53)" using assms by (simp only: of_int_less_iff)
    then show ?thesis by simp
  qed
  then have hi: "?L < 53" using pos by (intro floor_log2_less)
  define e where "e = ?L - 52"
  have e: "max (?L - 52) (- 1074) = e" "e \<le> 0" "- 52 \<le> e" using lo hi by (simp_all add: e_def)
  have "?x / 2 powi e = ?x * 2 powi (- e)"
    by (simp add: power_int_minus field_simps)
  also have "\<dots> = of_int (n * 2 ^ nat (- e))"
    using e(2) by (simp add: power_int_def)
  finally have q: "?x / 2 powi e = of_int (n * 2 ^ nat (- e))" .
  have "float_round ?x = of_int (round_half_even (?x / 2 powi e)) * 2 powi e"
    using False e(1) by (simp add: float_round_def Let_def)
  also have "\<dots> = of_int (n * 2 ^ nat (- e)) * 2 powi e"
    by (simp only: q round_half_even_int)
  also have "\<dots> = ?x * (2 powi (- e) * 2 powi e)"
    using e(2) by (simp add: power_int_def)
  also have "\<dots> = ?x"
    by (simp flip: power_int_add)
  finally show ?thesis .
qed

lemma float_round_above:
  assumes "0 \<le> d" and "d < 2 ^ 36"
  shows "of_int d < float_round (of_int d + 1 / 86400)"
proof -
  let ?x = "of_int d + 1 / 86400 :: rat"
  let ?L = "floor_log2 \<bar>?x\<bar>"
  have d0: "(0::rat) \<le> of_int d" using assms(1) by simp
  have pos: "0 < ?x" using d0 by simp
  then have ab: "\<bar>?x\<bar> = ?x" by simp
  have "(2::rat) powi (- 17) \<le> ?x"
  proof -
    have "(2::rat) powi (- 17) \<le> 1 / 86400" unfolding two_powi_minus_17 by simp
    then show ?thesis using d0 by linarith
  qed
  then have lo: "- 17 \<le> ?L" unfolding ab using pos by (intro floor_log2_ge)
  have "?x < 2 powi 36"
  proof -
    have "d + 1 \<le> 2 ^ 36" using assms(2) by simp
    then have "(of_int (d + 1) :: rat) \<le> of_int (2 ^ 36)" by (simp only: of_int_le_iff)
    then have "(of_int d :: rat) + 1 \<le> 2 powi 36" by simp
    then show ?thesis by simp
  qed
  then have hi: "?L < 36" unfolding ab using pos by (intro floor_log2_less)
  define e where "e = ?L - 52"
  have e: "max (?L - 52) (- 1074) = e" "e \<le> - 17" using lo hi by (simp_all add: e_def)
  define s where "s = (2::rat) powi e"
  have s: "0 < s" by (simp add: s_def)
  have s17: "s * 86400 < 1"
  proof -
    have "(2::rat) powi e \<le> 2 powi (- 17)" using e(2) by (intro power_int_increasing) simp_all
    also have "\<dots> < 1 / 86400" unfolding two_powi_minus_17 by simp
    finally show ?thesis using s by (simp add: s_def field_simps)
  qed
  have de: "of_int d / s = of_int (d * 2 ^ nat (- e))"
  proof -
    have "of_int d / s = of_int d * 2 powi (- e)"
      by (simp add: s_def power_int_minus field_simps)
    then show ?thesis using e(2) by (simp add: power_int_def)
  qed
  have "of_int (d * 2 ^ nat (- e)) + 1 \<le> ?x / s"
  proof -
    have "1 \<le> (1 / 86400) / s" using s s17 by (simp add: field_simps)
    then have "of_int d / s + 1 \<le> of_int d / s + (1 / 86400) / s" by (rule add_left_mono)
    then show ?thesis by (simp only: de add_divide_distrib)
  qed
  then have "of_int (d * 2 ^ nat (- e) + 1) \<le> ?x / s" by simp
  then have "d * 2 ^ nat (- e) + 1 \<le> \<lfloor>?x / s\<rfloor>" by (simp only: le_floor_iff)
  then have "d * 2 ^ nat (- e) + 1 \<le> round_half_even (?x / s)"
    using round_half_even_ge_floor[of "?x / s"] by linarith
  then have "(of_int (d * 2 ^ nat (- e) + 1) :: rat) \<le> of_int (round_half_even (?x / s))"
    by (simp only: of_int_le_iff)
  then have "(of_int (d * 2 ^ nat (- e)) + 1) * s \<le> of_int (round_half_even (?x / s)) * s"
    using s by simp
  moreover have "(of_int (d * 2 ^ nat (- e)) + 1) * s = of_int d + s"
    using de s by (simp add: field_simps)
  moreover have "float_round ?x = of_int (round_half_even (?x / s)) * s"
    using pos e(1) unfolding s_def float_round_def Let_def ab by simp
  ultimately have "of_int d + s \<le> float_round ?x" by simp
  then show ?thesis using s by linarith
qed

lemma diff_days_boundary:
  assumes "0 \<le> d" and "d < 2 ^ 36"
  shows "diff_days now (now - d * 86400) = of_int d"
proof -
  have "d * 86400 < 2 ^ 36 * 86400" using assms(2) by simp
  then have b: "\<bar>d * 86400\<bar> < 2 ^ 53" using assms(1) by simp
  have "(of_int now :: rat) - of_int (now - d * 86400) = of_int (d * 86400)" by simp
  then have i: "float_round (of_int now - of_int (now - d * 86400)) = of_int (d * 86400)"
    using float_round_of_int[OF b] by (simp only:)
  have q: "(of_int (d * 86400) :: rat) / (24 * 3600) = of_int d" by simp
  have r: "float_round (of_int d) = of_int d"
    using assms by (intro float_round_of_int) simp
  show ?thesis unfolding diff_days_def i q r ..
qed

lemma diff_days_one_second_past:
  assumes "0 \<le> d" and "d < 2 ^ 36"
  shows "of_int d < diff_days now (now - d * 86400 - 1)"
proof -
  have "d * 86400 + 86400 \<le> 2 ^ 36 * 86400" using assms(2) by simp
  then have b: "\<bar>d * 86400 + 1\<bar> < 2 ^ 53" using assms(1) by simp
  have "(of_int now :: rat) - of_int (now - d * 86400 - 1) = of_int (d * 86400 + 1)" by simp
  then have i: "float_round (of_int now - of_int (now - d * 86400 - 1)) = of_int (d * 86400 + 1)"
    using float_round_of_int[OF b] by (simp only:)
  have q: "(of_int (d * 86400 + 1) :: rat) / (24 * 3600) = of_int d + 1 / 86400"
    by (simp add: add_divide_distrib)
  have "diff_days now (now - d * 86400 - 1) = float_round (of_int d + 1 / 86400)"
    unfolding diff_days_def i q ..
  then show ?thesis using float_round_above[OF assms] by simp
qed

text \<open>
  Beyond that range the rounding shows: with 9007199254800001 seconds elapsed, more than
  \<open>2 ^ 53\<close>, the difference rounds to 9007199254800000 and the quotient is exactly
  104249991375 days, not more.
\<close>

lemma diff_days_rounds_large:
  "diff_days 9007199254800001 0 = 104249991375"
  by code_simp

lemma demo_diff_days:
  "diff_days 1704888000 1704801600 = 1" and "1 < diff_days 1704888000 1704801599"
  using diff_days_boundary[of 1 1704888000] diff_days_one_second_past[of 1 1704888000]
  by simp_all

section \<open>The recency filter\<close>

lemma filter_entries_append:
  "filter_entries env days_limit url (xs @ ys) =
     filter_entries env days_limit url xs @ filter_entries env days_limit url ys"
  by (induction xs) (simp_all split: option.splits)

lemma collect_valid_entries_append:
  "collect_valid_entries env days_limit (us @ vs) =
     collect_valid_entries env days_limit us @ collect_valid_entries env days_limit vs"
  by (induction us) simp_all

text \<open>
  C7. Let \<open>days_limit\<close> be from 0 to below \<open>2 ^ 36\<close> days, so that the elapsed seconds at
  the boundary are below \<open>2 ^ 53\<close>. Wherever they stand in the entries of a feed, an entry
  with a link published exactly \<open>days_limit\<close> days before now is retained, one published
  one second earlier is dropped, and one with neither a published nor an updated time is
  retained; and the entries of each feed go through this filter, wherever the feed stands
  in the list of addresses.
\<close>

theorem recency_filter_boundary:
  assumes "0 \<le> days_limit" and "days_limit < 2 ^ 36"
    and "e_link e1 \<noteq> []" and "published_struct e1 = Some (now_ts env - days_limit * 86400)"
    and "e_link e2 \<noteq> []" and "published_struct e2 = Some (now_ts env - days_limit * 86400 - 1)"
    and "e_link e3 \<noteq> []" and "published_struct e3 = None"
  shows "filter_entries env days_limit url (xs1 @ e1 # ys1) =
           filter_entries env days_limit url xs1 @
             e1\<lparr>e_source_url := url\<rparr> # filter_entries env days_limit url ys1 \<and>
         filter_entries env days_limit url (xs2 @ e2 # ys2) =
           filter_entries env days_limit url xs2 @ filter_entries env days_limit url ys2 \<and>
         filter_entries env days_limit url (xs3 @ e3 # ys3) =
           filter_entries env days_limit url xs3 @
             e3\<lparr>e_source_url := url\<rparr> # filter_entries env days_limit url ys3 \<and>
         collect_valid_entries env days_limit (us @ url # vs) =
           collect_valid_entries env days_limit us @
             filter_entries env days_limit url (fetch_rss_feed env url) @
             collect_valid_entries env days_limit vs"
proof -
  have a: "\<not> diff_days (now_ts env) (now_ts env - days_limit * 86400) > of_int days_limit"
    using diff_days_boundary[OF assms(1,2)] by simp
  have b: "diff_days (now_ts env) (now_ts env - days_limit * 86400 - 1) > of_int days_limit"
    using assms(1,2) by (rule diff_days_one_second_past)
  have 1: "filter_entries env days_limit url (e1 # ys1) =
      e1\<lparr>e_source_url := url\<rparr> # filter_entries env days_limit url ys1"
    using assms(3,4) a by simp
  have 2: "filter_entries env days_limit url (e2 # ys2) = filter_entries env days_limit url ys2"
    using assms(5,6) b by simp
  have 3: "filter_entries env days_limit url (e3 # ys3) =
      e3\<lparr>e_source_url := url\<rparr> # filter_entries env days_limit url ys3"
    using assms(7,8) by simp
  have 4: "collect_valid_entries env days_limit (us @ url # vs) =
           collect_valid_entries env days_limit us @
             filter_entries env days_limit url (fetch_rss_feed env url) @
             collect_valid_entries env days_limit vs"
    by (simp add: collect_valid_entries_append)
  show ?thesis
    unfolding filter_entries_append 1 2 3 using 4 by simp
qed

theorem recency_filter_boundary_witness:
  "filter_entries (demo_env [] irrelevant) 1 feed_url
     [demo_entry (py ''L0'') long_body None,
      demo_entry (py ''L1'') long_body (Some 1704801600)] =
     [demo_entry (py ''L0'') long_body None,
      demo_entry (py ''L1'') long_body (Some 1704801600)] \<and>
   filter_entries (demo_env [] irrelevant) 1 feed_url
     [demo_entry (py ''L0'') long_body None,
      demo_entry (py ''L2'') long_body (Some 1704801599)] =
     [demo_entry (py ''L0'') long_body None] \<and>
   filter_entries (demo_env [] irrelevant) 1 feed_url
     [demo_entry (py ''L3'') long_body None] = [demo_entry (py ''L3'') long_body None]"
proof -
  let ?env = "demo_env [] irrelevant"
  let ?e0 = "demo_entry (py ''L0'') long_body None"
  let ?e1 = "demo_entry (py ''L1'') long_body (Some 1704801600)"
  let ?e2 = "demo_entry (py ''L2'') long_body (Some 1704801599)"
  let ?e3 = "demo_entry (py ''L3'') long_body None"
  have l: "e_link ?e0 \<noteq> []" "e_link ?e1 \<noteq> []" "e_link ?e2 \<noteq> []" "e_link ?e3 \<noteq> []"
    by (simp_all add: demo_entry_def py_def)
  have p1: "published_struct ?e1 = Some (now_ts ?env - 1 * 86400)"
    by (simp add: demo_entry_def demo_env_def published_struct_def)
  have p2: "published_struct ?e2 = Some (now_ts ?env - 1 * 86400 - 1)"
    by (simp add: demo_entry_def demo_env_def published_struct_def)
  have p3: "published_struct ?e3 = None" "published_struct ?e0 = None"
    by (simp_all add: demo_entry_def published_struct_def)
  have u: "\<And>l b p. (demo_entry l b p)\<lparr>e_source_url := feed_url\<rparr> = demo_entry l b p"
    by (simp add: demo_entry_def)
  have e0: "filter_entries ?env 1 feed_url [?e0] = [?e0]"
    using l(1) p3(2) by (simp add: u)
  have b: "(0::int) \<le> 1" "(1::int) < 2 ^ 36" by simp_all
  note t = recency_filter_boundary[OF b l(2) p1 l(3) p2 l(4) p3(1),
      of feed_url "[?e0]" "[]" "[?e0]" "[]" "[]" "[]" "[]" "[]"]
  show ?thesis using t by (simp only: e0 u append.simps filter_entries.simps(1))
qed

section \<open>Short content\<close>

text \<open>
  C8. When an entry is selected for processing and its cleaned text has fewer than 20
  characters, the step sends no request to the summarizer, and the article stored under
  the entry's link has the placeholder as its summary and the entry's original title as
  its title.
\<close>

theorem short_content_skips_oracle:
  assumes "should_process (dict_get (existing_items_map st) (e_link e))"
    and "length (clean_text env e) < 20"
  shows "oracle_log (merge_step env m f st e) = oracle_log st \<and>
         (\<exists>a. dict_get (existing_items_map (merge_step env m f st e)) (e_link e) = Some a \<and>
              a_summary a = Some placeholder \<and> a_title a = Some (original_title e))"
proof -
  have s: "merge_step env m f st e =
        apply_entry env st e (dict_get (existing_items_map st) (e_link e)) True
          (Some (original_title e), Some placeholder)"
    using assms by (simp add: merge_step_def Let_def)
  show ?thesis
    unfolding s
    by (cases "dict_get (existing_items_map st) (e_link e)")
       (simp_all add: apply_entry_def Let_def dict_get_dict_set)
qed


theorem short_content_skips_oracle_witness:
  "oracle_log (merge_step (demo_env [] irrelevant) (py ''gpt-4o-mini'') None (initial_state [])
       (demo_entry (py ''L1'') (py ''too short'') None)) = [] \<and>
   (\<exists>a. dict_get (existing_items_map
            (merge_step (demo_env [] irrelevant) (py ''gpt-4o-mini'') None (initial_state [])
              (demo_entry (py ''L1'') (py ''too short'') None))) (py ''L1'') = Some a \<and>
        a_summary a = Some placeholder \<and> a_title a = Some (py ''Title''))"
  using short_content_skips_oracle[of "initial_state []"
      "demo_entry (py ''L1'') (py ''too short'') None" "demo_env [] irrelevant"
      "py ''gpt-4o-mini''" None]
  by (simp add: demo_entry_def demo_env_def initial_state_def dict_get_def clean_text_def
        original_title_def py_def)

section \<open>An irrelevant new entry is dropped\<close>

lemma set_keys_dict_set: "fst ` set (dict_set k v d) = insert k (fst ` set d)"
  by (induction d) auto

lemma keys_apply_entry:
  "fst ` set (existing_items_map (apply_entry env s e found p ai))
     = insert (e_link e) (fst ` set (existing_items_map s))"
  by (cases found) (simp_all add: apply_entry_def Let_def set_keys_dict_set)

lemma keys_merge_step:
  "fst ` set (existing_items_map (merge_step env m f st e))
     \<subseteq> insert (e_link e) (fst ` set (existing_items_map st))"
  unfolding merge_step_def Let_def
  by (simp add: keys_apply_entry subset_insertI)

lemma irrelevant_new_step:
  assumes "dict_get (existing_items_map st) (e_link e) = None"
    and "20 \<le> length (clean_text env e)"
    and "article_oracle env (length (oracle_log st)) (original_title e)
           (take 4000 (clean_text env e)) m f = (None, None)"
  shows "merge_step env m f st e =
           st\<lparr>oracle_log := oracle_log st @ [(original_title e, take 4000 (clean_text env e))]\<rparr>"
proof -
  have "clean_text env e \<noteq> []" using assms(2) by auto
  then show ?thesis using assms by (simp add: merge_step_def Let_def)
qed

lemma dict_get_None_iff: "dict_get d k = None \<longleftrightarrow> k \<notin> fst ` set d"
  by (simp add: dict_get_def map_of_eq_None_iff)

lemma absent_link_merge_loop:
  assumes "L \<notin> fst ` set (existing_items_map st)"
    and "\<forall>e\<in>set es. e_link e = L \<longrightarrow> 20 \<le> length (clean_text env e) \<and>
           (\<forall>n. article_oracle env n (original_title e) (take 4000 (clean_text env e)) m f
                  = (None, None))"
  shows "L \<notin> fst ` set (existing_items_map (merge_loop env m f st es))"
  using assms
proof (induction es arbitrary: st)
  case Nil
  then show ?case by simp
next
  case (Cons e es)
  have "L \<notin> fst ` set (existing_items_map (merge_step env m f st e))"
  proof (cases "e_link e = L")
    case True
    then have "dict_get (existing_items_map st) (e_link e) = None"
      using Cons.prems(1) by (simp add: dict_get_None_iff)
    then have "merge_step env m f st e =
        st\<lparr>oracle_log := oracle_log st @ [(original_title e, take 4000 (clean_text env e))]\<rparr>"
      using Cons.prems(2) True by (intro irrelevant_new_step) auto
    then show ?thesis using Cons.prems(1) by simp
  next
    case False
    then show ?thesis using Cons.prems(1) keys_merge_step[of env m f st e] by auto
  qed
  then show ?case using Cons.IH Cons.prems(2) by simp
qed

lemma keys_items_map:
  "fst ` set (items_map xs d) = fst ` set d \<union> a_link ` set xs"
  by (induction xs arbitrary: d) (auto simp: set_keys_dict_set)

lemma set_sort_reverse: "set (sort_reverse f xs) = set xs"
  by (simp add: sort_reverse_def)

lemma output_links:
  "a_link ` set (fst (process_news_data env urls existing m d f)) =
     fst ` set (existing_items_map (final_state env urls existing m d f))"
proof -
  have "keyed (existing_items_map (final_state env urls existing m d f))"
    by (rule keyed_final_state)
  then have "map a_link (dict_values (existing_items_map (final_state env urls existing m d f)))
      = map fst (existing_items_map (final_state env urls existing m d f))"
    by (rule keyed_links)
  then have "a_link ` set (dict_values (existing_items_map (final_state env urls existing m d f)))
      = fst ` set (existing_items_map (final_state env urls existing m d f))"
    by (metis set_map)
  then show ?thesis
    by (simp add: process_news_data_def Let_def set_sort_reverse)
qed

text \<open>
  C9, as the code has it. When the link of an entry is not in the working collection at
  the entry's turn and the summarizer answers Irrelevant for it, the entry's iteration
  leaves the collection, the new-count and the update-count (hence their sum, the total of
  changes) as they were. And when a link is not in the stored collection and every
  candidate with that link is answered Irrelevant, no article of the returned collection
  has that link.
\<close>

theorem irrelevant_new_entry_dropped:
  "(dict_get (existing_items_map st) (e_link e) = None \<and>
    20 \<le> length (clean_text env e) \<and>
    article_oracle env (length (oracle_log st)) (original_title e)
      (take 4000 (clean_text env e)) m f = (None, None)
    \<longrightarrow> existing_items_map (merge_step env m f st e) = existing_items_map st \<and>
        new_items_count (merge_step env m f st e) = new_items_count st \<and>
        updated_count (merge_step env m f st e) = updated_count st) \<and>
   (L \<notin> a_link ` set existing \<and>
    (\<forall>x\<in>set (collect_valid_entries env d urls).
        e_link x = L \<longrightarrow> 20 \<le> length (clean_text env x) \<and>
          (\<forall>n. article_oracle env n (original_title x) (take 4000 (clean_text env x)) m f
                 = (None, None)))
    \<longrightarrow> L \<notin> a_link ` set (fst (process_news_data env urls existing m d f)))"
proof (intro conjI impI)
  assume h: "dict_get (existing_items_map st) (e_link e) = None \<and>
    20 \<le> length (clean_text env e) \<and>
    article_oracle env (length (oracle_log st)) (original_title e)
      (take 4000 (clean_text env e)) m f = (None, None)"
  then have s: "merge_step env m f st e =
      st\<lparr>oracle_log := oracle_log st @ [(original_title e, take 4000 (clean_text env e))]\<rparr>"
    by (intro irrelevant_new_step) auto
  show "existing_items_map (merge_step env m f st e) = existing_items_map st"
    unfolding s by simp
  show "new_items_count (merge_step env m f st e) = new_items_count st"
    unfolding s by simp
  show "updated_count (merge_step env m f st e) = updated_count st"
    unfolding s by simp
next
  assume h: "L \<notin> a_link ` set existing \<and>
    (\<forall>x\<in>set (collect_valid_entries env d urls).
        e_link x = L \<longrightarrow> 20 \<le> length (clean_text env x) \<and>
          (\<forall>n. article_oracle env n (original_title x) (take 4000 (clean_text env x)) m f
                 = (None, None)))"
  then have "L \<notin> fst ` set (existing_items_map (initial_state existing))"
    by (simp add: initial_state_def keys_items_map)
  then have "L \<notin> fst ` set (existing_items_map (final_state env urls existing m d f))"
    unfolding final_state_def using h by (intro absent_link_merge_loop) auto
  then show "L \<notin> a_link ` set (fst (process_news_data env urls existing m d f))"
    by (simp add: output_links)
qed

theorem irrelevant_new_entry_dropped_witness:
  "process_news_data (demo_env [demo_entry (py ''L1'') long_body (Some 1704801600)] irrelevant)
      [feed_url] [] (py ''gpt-4o-mini'') 7 None = ([], 0) \<and>
   merge_step (demo_env [demo_entry (py ''L1'') long_body (Some 1704801600)] irrelevant)
      (py ''gpt-4o-mini'') None (initial_state [])
      (demo_entry (py ''L1'') long_body (Some 1704801600)) =
     (initial_state [])\<lparr>oracle_log := [(py ''Title'', long_body)]\<rparr>"
proof -
  let ?e = "demo_entry (py ''L1'') long_body (Some 1704801600)"
  let ?env = "demo_env [?e] irrelevant"
  have len: "length long_body = 44" by (simp add: long_body_def py_def)
  have ne: "long_body \<noteq> []" using len by auto
  note t = irrelevant_new_entry_dropped[of "initial_state []" ?e ?env
      "py ''gpt-4o-mini''" None "py ''L1''" "[]" 7 "[feed_url]"]
  have v: "collect_valid_entries ?env 7 [feed_url] = [?e]"
    by (simp add: demo_env_def demo_entry_def published_struct_def demo_diff_days py_def)
  have ct: "\<And>en an. clean_text (demo_env en an) ?e = long_body"
    by (simp add: clean_text_def demo_env_def demo_entry_def long_body_def py_def)
  have 2: "merge_step ?env (py ''gpt-4o-mini'') None (initial_state []) ?e
      = (initial_state [])\<lparr>oracle_log := [(py ''Title'', long_body)]\<rparr>"
    by (simp add: merge_step_def initial_state_def dict_get_def ct len ne Let_def original_title_def)
       (simp add: demo_env_def irrelevant_def demo_entry_def)
  have fs: "final_state ?env [feed_url] [] (py ''gpt-4o-mini'') 7 None
      = merge_step ?env (py ''gpt-4o-mini'') None (initial_state []) ?e"
    by (simp only: final_state_def v merge_loop.simps)
  have 1: "process_news_data ?env [feed_url] [] (py ''gpt-4o-mini'') 7 None = ([], 0)"
    unfolding process_news_data_def fs 2
    by (simp add: initial_state_def dict_values_def sort_reverse_def)
  show ?thesis using t 1 2 by simp
qed

section \<open>A response that is not JSON\<close>

lemma process_article_content_raw:
  assumes "secrets_api_key ai = Inr (Some key)" and "key \<noteq> []"
    and "\<not> py_in (py ''gemini'') (lower ai m)"
    and "fetch_content ai (chosen_model m) (chosen_filter_prompt f) title body
           = Inr (Some content)"
    and "content \<noteq> []" and "json_loads ai content = JSONDecodeError"
  shows "process_article_content ai title body m f = (Some title, Some content)"
  using assms by (simp add: process_article_content_def interpret_content_def)

text \<open>
  C10, as the code has it. When the key is present, the model is not a Gemini one, and the
  content the requests end with is not empty and does not decode as JSON,
  \<open>process_article_content\<close> returns the original title and the raw content as the
  summary, and the merge stores that raw content as the summary of the entry's article.
  No error text is put in its place, so the stored summary carries an error marker or is
  selected for reprocessing exactly when the raw content does or is.
\<close>

theorem malformed_json_stored_raw:
  assumes "secrets_api_key ai = Inr (Some key)" and "key \<noteq> []"
    and "\<not> py_in (py ''gemini'') (lower ai m)"
    and "fetch_content ai (chosen_model m) (chosen_filter_prompt f) (original_title e)
           (take 4000 (clean_text env e)) = Inr (Some content)"
    and "content \<noteq> []" and "json_loads ai content = JSONDecodeError"
    and "article_oracle env = (\<lambda>n. process_article_content ai)"
    and "should_process (dict_get (existing_items_map st) (e_link e))"
    and "20 \<le> length (clean_text env e)"
  shows "process_article_content ai (original_title e) (take 4000 (clean_text env e)) m f
           = (Some (original_title e), Some content) \<and>
         (\<exists>a. dict_get (existing_items_map (merge_step env m f st e)) (e_link e) = Some a \<and>
              a_title a = Some (original_title e) \<and> a_summary a = Some content \<and>
              needs_reprocess (a_summary a) = needs_reprocess (Some content))"
proof -
  have p: "process_article_content ai (original_title e) (take 4000 (clean_text env e)) m f
           = (Some (original_title e), Some content)"
    using assms(1-6) by (rule process_article_content_raw)
  have ne: "clean_text env e \<noteq> []" using assms(9) by auto
  have s: "merge_step env m f st e =
      apply_entry env
        (st\<lparr>oracle_log := oracle_log st @ [(original_title e, take 4000 (clean_text env e))]\<rparr>)
        e (dict_get (existing_items_map st) (e_link e)) True
        (Some (original_title e), Some content)"
    using assms(7,8,9) ne p by (simp add: merge_step_def Let_def)
  have "\<exists>a. dict_get (existing_items_map (merge_step env m f st e)) (e_link e) = Some a \<and>
      a_title a = Some (original_title e) \<and> a_summary a = Some content"
    unfolding s
    by (cases "dict_get (existing_items_map st) (e_link e)")
       (simp_all add: apply_entry_def Let_def dict_get_dict_set)
  then show ?thesis using p by auto
qed

theorem malformed_json_stored_raw_witness:
  "process_article_content (demo_ai_env (py ''<html>Bad Gateway</html>'')) (py ''Title'')
      long_body (py ''gpt-4o-mini'') None
     = (Some (py ''Title''), Some (py ''<html>Bad Gateway</html>'')) \<and>
   (\<exists>a. dict_get (existing_items_map
           (merge_step (raw_response_env (py ''<html>Bad Gateway</html>'')) (py ''gpt-4o-mini'')
              None (initial_state []) (demo_entry (py ''L1'') long_body None)))
           (py ''L1'') = Some a \<and>
        a_title a = Some (py ''Title'') \<and> a_summary a = Some (py ''<html>Bad Gateway</html>''))"
proof -
  let ?r = "py ''<html>Bad Gateway</html>''"
  let ?ai = "demo_ai_env ?r"
  let ?env = "raw_response_env ?r"
  let ?e = "demo_entry (py ''L1'') long_body None"
  let ?m = "py ''gpt-4o-mini''"
  have len: "length long_body = 44" by (simp add: long_body_def py_def)
  have ct: "clean_text ?env ?e = long_body"
    by (simp add: clean_text_def raw_response_env_def demo_env_def demo_entry_def)
  have tk: "take 4000 long_body = long_body" using len by simp
  have l: "e_link ?e = py ''L1''" "original_title ?e = py ''Title''"
    by (simp_all add: demo_entry_def original_title_def)
  have 1: "secrets_api_key ?ai = Inr (Some (py ''sk-test''))" by (simp add: demo_ai_env_def)
  have 2: "py ''sk-test'' \<noteq> []" by (simp add: py_def)
  have 3: "\<not> py_in (py ''gemini'') (lower ?ai ?m)"
    by (simp add: demo_ai_env_def py_def startswith_def)
  have 4: "fetch_content ?ai (chosen_model ?m) (chosen_filter_prompt None) (original_title ?e)
      (take 4000 (clean_text ?env ?e)) = Inr (Some ?r)"
    by (simp add: fetch_content_def demo_ai_env_def chosen_model_def py_def)
  have 5: "?r \<noteq> []" by (simp add: py_def)
  have 6: "json_loads ?ai ?r = JSONDecodeError" by (simp add: demo_ai_env_def py_def)
  have 7: "article_oracle ?env = (\<lambda>n. process_article_content ?ai)"
    by (simp add: raw_response_env_def)
  have 8: "should_process (dict_get (existing_items_map (initial_state [])) (e_link ?e))"
    by (simp add: initial_state_def dict_get_def)
  have 9: "20 \<le> length (clean_text ?env ?e)" unfolding ct len by simp
  note t = malformed_json_stored_raw[OF 1 2 3 4 5 6 7 8 9]
  show ?thesis using t unfolding ct tk l by auto
qed

text \<open>
  The response \<open>Error: upstream timeout\<close> is not JSON and is returned as it is: the
  summary starts with the marker \<open>Error\<close> and is selected for reprocessing.
\<close>

theorem malformed_json_counterexample:
  "json_loads (demo_ai_env (py ''Error: upstream timeout'')) (py ''Error: upstream timeout'')
     = JSONDecodeError \<and>
   process_article_content (demo_ai_env (py ''Error: upstream timeout'')) (py ''Title'')
      long_body (py ''gpt-4o-mini'') None
     = (Some (py ''Title''), Some (py ''Error: upstream timeout'')) \<and>
   startswith (py ''Error: upstream timeout'') (py ''Error'') \<and>
   needs_reprocess (Some (py ''Error: upstream timeout''))"
proof -
  let ?r = "py ''Error: upstream timeout''"
  let ?ai = "demo_ai_env ?r"
  have 1: "json_loads ?ai ?r = JSONDecodeError" by (simp add: demo_ai_env_def py_def)
  have 5: "?r \<noteq> []" by (simp add: py_def)
  have 3: "\<not> py_in (py ''gemini'') (lower ?ai (py ''gpt-4o-mini''))"
    by (simp add: demo_ai_env_def py_def startswith_def)
  have 4: "fetch_content ?ai (chosen_model (py ''gpt-4o-mini'')) (chosen_filter_prompt None)
      (py ''Title'') long_body = Inr (Some ?r)"
    by (simp add: fetch_content_def demo_ai_env_def chosen_model_def py_def)
  have k: "secrets_api_key ?ai = Inr (Some (py ''sk-test''))" "py ''sk-test'' \<noteq> []"
    by (simp_all add: demo_ai_env_def py_def)
  have 2: "process_article_content ?ai (py ''Title'') long_body (py ''gpt-4o-mini'') None
      = (Some (py ''Title''), Some ?r)"
    by (rule process_article_content_raw[OF k 3 4 5 1])
  have 6: "startswith ?r (py ''Error'')" by (simp add: startswith_def py_def)
  then have 7: "needs_reprocess (Some ?r)" by simp
  show ?thesis using 1 2 6 7 by simp
qed


section \<open>The scheduler's record of the last run\<close>

text \<open>
  C2, as the code has it. In a pass in which a run is due and started: when the run ends
  without raising, the stats written to the store have \<open>last_auto_scrape\<close> set to the
  instant read at the end of the run (and they reach the store when the write succeeds);
  when the run raises and the failure is caught, the stored stats stay as they were.
\<close>

theorem last_auto_scrape_after_run:
  assumes "run_due env (loaded_config env s) (loaded_stats env s) = Some True"
  shows "stats_json (scheduler_pass env s) =
           (case run_pipeline env (loaded_config env s) s of
              Inl ex \<Rightarrow> stats_json s
            | Inr r \<Rightarrow>
                if save_ok env (py ''stats.json'')
                then Some (update_stats env (loaded_stats env s)) else stats_json s)
         \<and> last_auto_scrape (update_stats env (loaded_stats env s)) = Some (now_at_end_iso env)"
proof -
  have a: "scheduler_pass env s = auto_scrape env (loaded_config env s) (loaded_stats env s) s"
    using assms by (simp add: scheduler_pass_def Let_def)
  have b: "stats_json (auto_scrape env (loaded_config env s) (loaded_stats env s) s) =
           (case run_pipeline env (loaded_config env s) s of
              Inl ex \<Rightarrow> stats_json s
            | Inr r \<Rightarrow>
                if save_ok env (py ''stats.json'')
                then Some (update_stats env (loaded_stats env s)) else stats_json s)"
    by (simp add: auto_scrape_def save_logs_to_github_def save_stats_def save_news_def Let_def
          split: sum.splits prod.splits)
  have c: "last_auto_scrape (update_stats env (loaded_stats env s)) = Some (now_at_end_iso env)"
    by (simp add: update_stats_def Let_def)
  show ?thesis using a b c by simp
qed

theorem last_auto_scrape_after_run_witness:
  "stats_json (scheduler_pass (demo_sched_env (Inr ([], 0))) demo_store) =
     Some \<lparr>last_auto_scrape = Some (py ''2024-01-10T12:00:05''),
           scraped_count = Some [(py ''2024-01-10'', 0)]\<rparr>"
proof -
  let ?env = "demo_sched_env (Inr ([], 0))"
  have cfg: "loaded_config ?env demo_store =
      \<lparr>enable_auto_scrape = Some True, update_interval_minutes = Some 180,
       rss_urls = Some [feed_url], days_to_scrape = Some 3,
       openai_model = None, ai_filter_prompt = None\<rparr>"
    by (simp add: loaded_config_def load_data_from_github_def demo_sched_env_def demo_store_def)
  have st: "loaded_stats ?env demo_store =
      \<lparr>last_auto_scrape = Some (py ''2024-01-09T12:00:00''), scraped_count = Some []\<rparr>"
    by (simp add: loaded_stats_def load_data_from_github_def demo_sched_env_def demo_store_def)
  have due: "run_due ?env (loaded_config ?env demo_store) (loaded_stats ?env demo_store) = Some True"
    unfolding cfg st by (simp add: run_due_def demo_sched_env_def)
  have rp: "run_pipeline ?env (loaded_config ?env demo_store) demo_store = Inr ([], 0)"
    by (simp add: run_pipeline_def demo_sched_env_def Let_def)
  have ok: "save_ok ?env (py ''stats.json'')" by (simp add: demo_sched_env_def)
  have us: "update_stats ?env (loaded_stats ?env demo_store) =
      \<lparr>last_auto_scrape = Some (py ''2024-01-10T12:00:05''),
       scraped_count = Some [(py ''2024-01-10'', 0)]\<rparr>"
    unfolding st by (simp add: update_stats_def demo_sched_env_def dict_get_def Let_def)
  show ?thesis using last_auto_scrape_after_run[OF due] rp ok us by simp
qed

text \<open>
  A run is due and starts, the pipeline raises, the failure is caught: the stored
  \<open>last_auto_scrape\<close> is still the time of the run a day earlier, not the instant at
  which this run ended.
\<close>

theorem last_auto_scrape_counterexample:
  "run_due (demo_sched_env (Inl (py ''KeyError'')))
      (loaded_config (demo_sched_env (Inl (py ''KeyError''))) demo_store)
      (loaded_stats (demo_sched_env (Inl (py ''KeyError''))) demo_store) = Some True \<and>
   run_pipeline (demo_sched_env (Inl (py ''KeyError'')))
      (loaded_config (demo_sched_env (Inl (py ''KeyError''))) demo_store) demo_store
     = Inl (py ''KeyError'') \<and>
   stats_json (scheduler_pass (demo_sched_env (Inl (py ''KeyError''))) demo_store) =
     Some \<lparr>last_auto_scrape = Some (py ''2024-01-09T12:00:00''), scraped_count = Some []\<rparr> \<and>
   now_at_end_iso (demo_sched_env (Inl (py ''KeyError''))) = py ''2024-01-10T12:00:05'' \<and>
   py ''2024-01-09T12:00:00'' \<noteq> py ''2024-01-10T12:00:05''"
proof -
  let ?env = "demo_sched_env (Inl (py ''KeyError''))"
  have cfg: "loaded_config ?env demo_store =
      \<lparr>enable_auto_scrape = Some True, update_interval_minutes = Some 180,
       rss_urls = Some [feed_url], days_to_scrape = Some 3,
       openai_model = None, ai_filter_prompt = None\<rparr>"
    by (simp add: loaded_config_def load_data_from_github_def demo_sched_env_def demo_store_def)
  have st: "loaded_stats ?env demo_store =
      \<lparr>last_auto_scrape = Some (py ''2024-01-09T12:00:00''), scraped_count = Some []\<rparr>"
    by (simp add: loaded_stats_def load_data_from_github_def demo_sched_env_def demo_store_def)
  have due: "run_due ?env (loaded_config ?env demo_store) (loaded_stats ?env demo_store) = Some True"
    unfolding cfg st by (simp add: run_due_def demo_sched_env_def)
  have rp: "run_pipeline ?env (loaded_config ?env demo_store) demo_store = Inl (py ''KeyError'')"
    by (simp add: run_pipeline_def demo_sched_env_def Let_def)
  have sp: "stats_json (scheduler_pass ?env demo_store) = stats_json demo_store"
    using due rp
    by (simp add: scheduler_pass_def auto_scrape_def save_logs_to_github_def Let_def)
  have sj: "stats_json demo_store =
     Some \<lparr>last_auto_scrape = Some (py ''2024-01-09T12:00:00''), scraped_count = Some []\<rparr>"
    by (simp add: demo_store_def)
  have n: "now_at_end_iso ?env = py ''2024-01-10T12:00:05''" by (simp add: demo_sched_env_def)
  have d: "py ''2024-01-09T12:00:00'' \<noteq> py ''2024-01-10T12:00:05''" by (simp add: py_def)
  show ?thesis using due rp sp sj n d by simp
qed

section \<open>An existing article answered Irrelevant\<close>

text \<open>
  C1 at a concrete input. The stored article has an empty summary, so it is reprocessed
  when the feed shows its link again; the summarizer answers Irrelevant. The iteration
  ends at the \<open>continue\<close> that follows the answer, before the lines that refresh the
  timestamp: title and summary are unchanged, and so are date and timestamp, although
  the feed gives 2024-01-09T12:00:00 as the time of publication; no change is counted.
\<close>

theorem irrelevant_existing_keeps_old_timestamp:
  "process_news_data (demo_env [demo_entry (py ''L1'') long_body (Some 1704801600)] irrelevant)
      [feed_url] [stale_article] (py ''gpt-4o-mini'') 7 None = ([stale_article], 0) \<and>
   a_timestamp stale_article = py ''2024-01-01T00:00:00'' \<and>
   item_timestamp_iso (demo_env [demo_entry (py ''L1'') long_body (Some 1704801600)] irrelevant)
      (demo_entry (py ''L1'') long_body (Some 1704801600)) = py ''2024-01-09T12:00:00''"
proof -
  let ?e = "demo_entry (py ''L1'') long_body (Some 1704801600)"
  let ?env = "demo_env [?e] irrelevant"
  let ?m = "py ''gpt-4o-mini''"
  have len: "length long_body = 44" by (simp add: long_body_def py_def)
  have ne: "long_body \<noteq> []" using len by auto
  have v: "collect_valid_entries ?env 7 [feed_url] = [?e]"
    by (simp add: demo_env_def demo_entry_def published_struct_def demo_diff_days py_def)
  have ct: "clean_text ?env ?e = long_body"
    by (simp add: clean_text_def demo_env_def demo_entry_def long_body_def py_def)
  have i: "initial_state [stale_article] =
      \<lparr>existing_items_map = [(py ''L1'', stale_article)],
       new_items_count = 0, updated_count = 0, oracle_log = []\<rparr>"
    by (simp add: initial_state_def stale_article_def)
  have l: "e_link ?e = py ''L1''" by (simp add: demo_entry_def)
  have sp: "needs_reprocess (a_summary stale_article)" by (simp add: stale_article_def)
  have o: "\<And>n t b mo fp. article_oracle ?env n t b mo fp = (None, None)"
    by (simp add: demo_env_def irrelevant_def)
  have st: "merge_step ?env ?m None (initial_state [stale_article]) ?e =
      (initial_state [stale_article])\<lparr>oracle_log := [(original_title ?e, long_body)]\<rparr>"
    unfolding i by (simp add: merge_step_def Let_def dict_get_def l sp ct len ne o)
  have fs: "final_state ?env [feed_url] [stale_article] ?m 7 None
      = merge_step ?env ?m None (initial_state [stale_article]) ?e"
    by (simp only: final_state_def v merge_loop.simps)
  have 1: "process_news_data ?env [feed_url] [stale_article] ?m 7 None = ([stale_article], 0)"
    unfolding process_news_data_def fs st
    by (simp add: i dict_values_def sort_reverse_def)
  have 2: "a_timestamp stale_article = py ''2024-01-01T00:00:00''"
    by (simp add: stale_article_def)
  have 3: "item_timestamp_iso ?env ?e = py ''2024-01-09T12:00:00''"
    by (simp add: item_timestamp_iso_def published_struct_def demo_entry_def demo_env_def)
  show ?thesis using 1 2 3 by simp
qed

section \<open>Feeding the same candidates twice\<close>

lemma keys_merge_step_mono:
  "fst ` set (existing_items_map st)
     \<subseteq> fst ` set (existing_items_map (merge_step env m f st e))"
  unfolding merge_step_def Let_def
  by (simp add: keys_apply_entry subset_insertI)

lemma keys_merge_loop_mono:
  "fst ` set (existing_items_map st)
     \<subseteq> fst ` set (existing_items_map (merge_loop env m f st es))"
proof (induction es arbitrary: st)
  case Nil
  then show ?case by simp
next
  case (Cons e es)
  have "fst ` set (existing_items_map st)
      \<subseteq> fst ` set (existing_items_map (merge_step env m f st e))"
    by (rule keys_merge_step_mono)
  also have "\<dots> \<subseteq> fst ` set (existing_items_map
                  (merge_loop env m f (merge_step env m f st e) es))"
    by (rule Cons.IH)
  finally show ?case by simp
qed

lemma absent_after_step:
  assumes "article_oracle env = (\<lambda>n. answer)"
    and "e_link e \<notin> fst ` set (existing_items_map (merge_step env m f st e))"
  shows "20 \<le> length (clean_text env e) \<and>
         answer (original_title e) (take 4000 (clean_text env e)) m f = (None, None)"
proof -
  have k: "\<And>s found p ai.
      e_link e \<in> fst ` set (existing_items_map (apply_entry env s e found p ai))"
    by (simp add: keys_apply_entry)
  show ?thesis
  proof (rule ccontr)
    assume n: "\<not> ?thesis"
    have "e_link e \<in> fst ` set (existing_items_map (merge_step env m f st e))"
    proof (cases "20 \<le> length (clean_text env e)")
      case False
      then show ?thesis unfolding merge_step_def Let_def using k by (simp add: not_le)
    next
      case True
      then have "answer (original_title e) (take 4000 (clean_text env e)) m f \<noteq> (None, None)"
        using n by simp
      then have "\<not> (fst (answer (original_title e) (take 4000 (clean_text env e)) m f) = None \<and>
                  snd (answer (original_title e) (take 4000 (clean_text env e)) m f) = None)"
        by (metis prod.collapse)
      then show ?thesis
        unfolding merge_step_def Let_def using k assms(1) by auto
    qed
    then show False using assms(2) by simp
  qed
qed

lemma absent_after_loop:
  assumes "article_oracle env = (\<lambda>n. answer)"
  shows "\<forall>e\<in>set es. e_link e \<notin> fst ` set (existing_items_map (merge_loop env m f st es)) \<longrightarrow>
           20 \<le> length (clean_text env e) \<and>
           answer (original_title e) (take 4000 (clean_text env e)) m f = (None, None)"
proof (induction es arbitrary: st)
  case Nil
  then show ?case by simp
next
  case (Cons x xs)
  let ?st = "merge_step env m f st x"
  have hd: "e_link x \<notin> fst ` set (existing_items_map (merge_loop env m f ?st xs)) \<longrightarrow>
           20 \<le> length (clean_text env x) \<and>
           answer (original_title x) (take 4000 (clean_text env x)) m f = (None, None)"
  proof
    assume "e_link x \<notin> fst ` set (existing_items_map (merge_loop env m f ?st xs))"
    then have "e_link x \<notin> fst ` set (existing_items_map ?st)"
      using keys_merge_loop_mono[of ?st env m f xs] by blast
    then show "20 \<le> length (clean_text env x) \<and>
           answer (original_title x) (take 4000 (clean_text env x)) m f = (None, None)"
      using absent_after_step[OF assms] by blast
  qed
  show ?case using hd Cons.IH[of ?st] by simp
qed

lemma clean_text_cong:
  "clean_html env2 = clean_html env1 \<Longrightarrow> clean_text env2 e = clean_text env1 e"
  by (simp add: clean_text_def)

lemma dict_get_Some_key: "dict_get d k = Some a \<Longrightarrow> k \<in> fst ` set d"
  using dict_get_None_iff[of d k] by auto

lemma existing_step:
  assumes "dict_get (existing_items_map st) (e_link e) = Some a"
  shows "fst ` set (existing_items_map (merge_step env m f st e))
           = fst ` set (existing_items_map st) \<and>
         new_items_count (merge_step env m f st e) = new_items_count st"
proof -
  have k: "e_link e \<in> fst ` set (existing_items_map st)"
    using assms by (rule dict_get_Some_key)
  have a: "\<And>s p ai. existing_items_map s = existing_items_map st \<Longrightarrow>
      new_items_count s = new_items_count st \<Longrightarrow>
      fst ` set (existing_items_map (apply_entry env s e (Some a) p ai))
        = fst ` set (existing_items_map st) \<and>
      new_items_count (apply_entry env s e (Some a) p ai) = new_items_count st"
    using k by (auto simp: keys_apply_entry) (simp add: apply_entry_def Let_def)
  show ?thesis
    unfolding merge_step_def Let_def assms
    by (simp add: a)
qed

lemma no_new_step:
  assumes "article_oracle env = (\<lambda>n. answer)"
    and "e_link e \<notin> fst ` set (existing_items_map st) \<longrightarrow>
           20 \<le> length (clean_text env e) \<and>
           answer (original_title e) (take 4000 (clean_text env e)) m f = (None, None)"
  shows "fst ` set (existing_items_map (merge_step env m f st e))
           = fst ` set (existing_items_map st) \<and>
         new_items_count (merge_step env m f st e) = new_items_count st"
proof (cases "dict_get (existing_items_map st) (e_link e)")
  case None
  then have "e_link e \<notin> fst ` set (existing_items_map st)"
    by (simp add: dict_get_None_iff)
  then have "merge_step env m f st e =
      st\<lparr>oracle_log := oracle_log st @ [(original_title e, take 4000 (clean_text env e))]\<rparr>"
    using assms None by (intro irrelevant_new_step) auto
  then show ?thesis by simp
next
  case (Some a)
  then show ?thesis by (rule existing_step)
qed

lemma no_new_loop:
  assumes "article_oracle env = (\<lambda>n. answer)"
    and "\<forall>e\<in>set es. e_link e \<notin> fst ` set (existing_items_map st) \<longrightarrow>
           20 \<le> length (clean_text env e) \<and>
           answer (original_title e) (take 4000 (clean_text env e)) m f = (None, None)"
  shows "new_items_count (merge_loop env m f st es) = new_items_count st"
  using assms(2)
proof (induction es arbitrary: st)
  case Nil
  then show ?case by simp
next
  case (Cons x xs)
  let ?st = "merge_step env m f st x"
  have s: "fst ` set (existing_items_map ?st) = fst ` set (existing_items_map st) \<and>
           new_items_count ?st = new_items_count st"
    using no_new_step[OF assms(1), of x st m f] Cons.prems by simp
  then have "new_items_count (merge_loop env m f ?st xs) = new_items_count ?st"
    using Cons.prems by (intro Cons.IH) simp
  then show ?case using s by simp
qed

lemma quiet_existing_step:
  assumes "dict_get (existing_items_map st) (e_link e) = Some a"
    and "\<not> needs_reprocess (a_summary a)"
    and "a_timestamp a = item_timestamp_iso env e"
  shows "merge_step env m f st e =
           st\<lparr>existing_items_map :=
                dict_set (e_link e) (a\<lparr>a_date := item_date_str env e\<rparr>) (existing_items_map st)\<rparr>"
proof -
  have eq: "a\<lparr>a_timestamp := item_timestamp_iso env e, a_date := item_date_str env e\<rparr>
      = a\<lparr>a_date := item_date_str env e\<rparr>"
    using assms(3) by simp
  have "merge_step env m f st e = apply_entry env st e (Some a) False (None, None)"
    using assms(1,2) by (simp add: merge_step_def Let_def)
  also have "\<dots> = st\<lparr>existing_items_map :=
       dict_set (e_link e)
         (a\<lparr>a_timestamp := item_timestamp_iso env e, a_date := item_date_str env e\<rparr>)
         (existing_items_map st)\<rparr>"
    using assms(3) by (simp add: apply_entry_def Let_def)
  finally show ?thesis unfolding eq .
qed

lemma update_counted_loop:
  assumes "article_oracle env = (\<lambda>n. answer)"
    and "\<forall>e\<in>set es. e_link e \<notin> fst ` set (existing_items_map st) \<longrightarrow>
           20 \<le> length (clean_text env e) \<and>
           answer (original_title e) (take 4000 (clean_text env e)) m f = (None, None)"
    and "updated_count st < updated_count (merge_loop env m f st es)"
  shows "\<exists>e\<in>set es. \<exists>a. dict_get (existing_items_map st) (e_link e) = Some a \<and>
           (needs_reprocess (a_summary a) \<or> a_timestamp a \<noteq> item_timestamp_iso env e)"
  using assms(2,3)
proof (induction es arbitrary: st)
  case Nil
  then show ?case by simp
next
  case (Cons x xs)
  let ?st = "merge_step env m f st x"
  show ?case
  proof (cases "dict_get (existing_items_map st) (e_link x)")
    case None
    then have "e_link x \<notin> fst ` set (existing_items_map st)"
      by (simp add: dict_get_None_iff)
    then have s: "?st =
        st\<lparr>oracle_log := oracle_log st @ [(original_title x, take 4000 (clean_text env x))]\<rparr>"
      using assms(1) Cons.prems(1) None by (intro irrelevant_new_step) auto
    have "\<exists>e\<in>set xs. \<exists>a. dict_get (existing_items_map ?st) (e_link e) = Some a \<and>
           (needs_reprocess (a_summary a) \<or> a_timestamp a \<noteq> item_timestamp_iso env e)"
    proof (rule Cons.IH)
      show "\<forall>e\<in>set xs. e_link e \<notin> fst ` set (existing_items_map ?st) \<longrightarrow>
           20 \<le> length (clean_text env e) \<and>
           answer (original_title e) (take 4000 (clean_text env e)) m f = (None, None)"
        using Cons.prems(1) unfolding s by simp
      have "updated_count ?st = updated_count st" unfolding s by simp
      then show "updated_count ?st < updated_count (merge_loop env m f ?st xs)"
        using Cons.prems(2) by simp
    qed
    then show ?thesis unfolding s by auto
  next
    case (Some a)
    show ?thesis
    proof (cases "needs_reprocess (a_summary a) \<or> a_timestamp a \<noteq> item_timestamp_iso env x")
      case True
      then show ?thesis using Some by auto
    next
      case False
      then have s: "?st =
          st\<lparr>existing_items_map :=
               dict_set (e_link x) (a\<lparr>a_date := item_date_str env x\<rparr>) (existing_items_map st)\<rparr>"
        using Some by (intro quiet_existing_step) auto
      have keys: "fst ` set (existing_items_map ?st) = fst ` set (existing_items_map st)"
        using existing_step[OF Some] by simp
      have "\<exists>e\<in>set xs. \<exists>b. dict_get (existing_items_map ?st) (e_link e) = Some b \<and>
           (needs_reprocess (a_summary b) \<or> a_timestamp b \<noteq> item_timestamp_iso env e)"
      proof (rule Cons.IH)
        show "\<forall>e\<in>set xs. e_link e \<notin> fst ` set (existing_items_map ?st) \<longrightarrow>
           20 \<le> length (clean_text env e) \<and>
           answer (original_title e) (take 4000 (clean_text env e)) m f = (None, None)"
          using Cons.prems(1) keys by simp
        have "updated_count ?st = updated_count st" unfolding s by simp
        then show "updated_count ?st < updated_count (merge_loop env m f ?st xs)"
          using Cons.prems(2) by simp
      qed
      then obtain e b where e: "e \<in> set xs"
        and b: "dict_get (existing_items_map ?st) (e_link e) = Some b"
        and c: "needs_reprocess (a_summary b) \<or> a_timestamp b \<noteq> item_timestamp_iso env e"
        by blast
      have "\<exists>a'. dict_get (existing_items_map st) (e_link e) = Some a' \<and>
              a_summary a' = a_summary b \<and> a_timestamp a' = a_timestamp b"
      proof (cases "e_link e = e_link x")
        case True
        then have "b = a\<lparr>a_date := item_date_str env x\<rparr>"
          using b unfolding s by (simp add: dict_get_dict_set)
        then show ?thesis using Some True by simp
      next
        case False
        then have "dict_get (existing_items_map st) (e_link e) = Some b"
          using b unfolding s by (simp add: dict_get_dict_set)
        then show ?thesis by simp
      qed
      then obtain a' where a1: "dict_get (existing_items_map st) (e_link e) = Some a'"
        and a2: "a_summary a' = a_summary b" and a3: "a_timestamp a' = a_timestamp b"
        by blast
      have "needs_reprocess (a_summary a') \<or> a_timestamp a' \<noteq> item_timestamp_iso env e"
        using c a2 a3 by simp
      then have "\<exists>a. dict_get (existing_items_map st) (e_link e) = Some a \<and>
           (needs_reprocess (a_summary a) \<or> a_timestamp a \<noteq> item_timestamp_iso env e)"
        using a1 by blast
      moreover have "e \<in> set (x # xs)" using e by simp
      ultimately show ?thesis by blast
    qed
  qed
qed

lemma dict_get_items_map:
  "dict_get (items_map xs d) k = Some a \<Longrightarrow>
     (a \<in> set xs \<and> a_link a = k) \<or> dict_get d k = Some a"
proof (induction xs arbitrary: d)
  case Nil
  then show ?case by simp
next
  case (Cons x xs)
  from Cons.IH[of "dict_set (a_link x) x d"] Cons.prems
  have "(a \<in> set xs \<and> a_link a = k) \<or> dict_get (dict_set (a_link x) x d) k = Some a"
    by simp
  then show ?case by (auto simp: dict_get_dict_set split: if_splits)
qed

text \<open>
  C4, as the code has it. Take a run, and a second run on the collection it returned, with
  the same candidate set, the same markup stripping and a summarizer that gives the same
  answer to the same request. The second run creates no article. It counts an update
  only if some candidate's article, as the first run returned it, is selected for
  reprocessing or has a timestamp other than the one the feed gives for the candidate.
\<close>

theorem second_run_counts:
  assumes "article_oracle env1 = (\<lambda>n. answer)" and "article_oracle env2 = (\<lambda>n. answer)"
    and "clean_html env2 = clean_html env1"
    and "collect_valid_entries env2 d urls = collect_valid_entries env1 d urls"
  shows "new_items_count
           (final_state env2 urls (fst (process_news_data env1 urls existing m d f)) m d f) = 0 \<and>
         (0 < updated_count
                (final_state env2 urls (fst (process_news_data env1 urls existing m d f)) m d f)
          \<longrightarrow> (\<exists>e\<in>set (collect_valid_entries env2 d urls).
                 \<exists>a\<in>set (fst (process_news_data env1 urls existing m d f)).
                   a_link a = e_link e \<and>
                   (needs_reprocess (a_summary a) \<or>
                    a_timestamp a \<noteq> item_timestamp_iso env2 e)))"
proof -
  let ?es = "collect_valid_entries env1 d urls"
  let ?E1 = "fst (process_news_data env1 urls existing m d f)"
  let ?st2 = "initial_state ?E1"
  have k1: "a_link ` set ?E1 =
      fst ` set (existing_items_map (merge_loop env1 m f (initial_state existing) ?es))"
    using output_links[of env1 urls existing m d f] by (simp add: final_state_def)
  have k2: "fst ` set (existing_items_map ?st2) = a_link ` set ?E1"
    by (simp add: initial_state_def keys_items_map)
  have ct: "\<And>e. clean_text env2 e = clean_text env1 e"
    using assms(3) by (rule clean_text_cong)
  have pre: "\<forall>e\<in>set ?es. e_link e \<notin> fst ` set (existing_items_map ?st2) \<longrightarrow>
           20 \<le> length (clean_text env2 e) \<and>
           answer (original_title e) (take 4000 (clean_text env2 e)) m f = (None, None)"
    using absent_after_loop[OF assms(1), of ?es m f "initial_state existing"]
    unfolding k2 k1 ct by simp
  have fs: "final_state env2 urls ?E1 m d f = merge_loop env2 m f ?st2 ?es"
    by (simp add: final_state_def assms(4))
  have new: "new_items_count (merge_loop env2 m f ?st2 ?es) = 0"
    using no_new_loop[OF assms(2) pre] by (simp add: initial_state_def)
  have upd: "0 < updated_count (merge_loop env2 m f ?st2 ?es) \<longrightarrow>
      (\<exists>e\<in>set ?es. \<exists>a\<in>set ?E1. a_link a = e_link e \<and>
          (needs_reprocess (a_summary a) \<or> a_timestamp a \<noteq> item_timestamp_iso env2 e))"
  proof
    assume "0 < updated_count (merge_loop env2 m f ?st2 ?es)"
    then have "updated_count ?st2 < updated_count (merge_loop env2 m f ?st2 ?es)"
      by (simp add: initial_state_def)
    then obtain e a where e: "e \<in> set ?es"
      and a: "dict_get (existing_items_map ?st2) (e_link e) = Some a"
      and c: "needs_reprocess (a_summary a) \<or> a_timestamp a \<noteq> item_timestamp_iso env2 e"
      using update_counted_loop[OF assms(2) pre] by blast
    from a have "dict_get (items_map ?E1 []) (e_link e) = Some a"
      by (simp add: initial_state_def)
    then have "a \<in> set ?E1 \<and> a_link a = e_link e"
      using dict_get_items_map[of ?E1 "[]" "e_link e" a] by (simp add: dict_get_def)
    then show "\<exists>e\<in>set ?es. \<exists>a\<in>set ?E1. a_link a = e_link e \<and>
          (needs_reprocess (a_summary a) \<or> a_timestamp a \<noteq> item_timestamp_iso env2 e)"
      using e c by blast
  qed
  show ?thesis unfolding fs assms(4) using new upd by simp
qed

lemma short_entry_valid:
  "collect_valid_entries (demo_env [short_entry] irrelevant) 7 [feed_url] = [short_entry]"
  by (simp add: demo_env_def short_entry_def demo_entry_def published_struct_def demo_diff_days
        py_def)

lemma short_entry_text: "clean_text (demo_env es an) short_entry = py ''too short''"
  by (simp add: clean_text_def demo_env_def short_entry_def demo_entry_def py_def)

lemma short_entry_stamp:
  "item_timestamp_iso (demo_env es an) short_entry = py ''2024-01-09T12:00:00'' \<and>
   item_date_str (demo_env es an) short_entry = py ''2024-01-09''"
  by (simp add: item_timestamp_iso_def item_date_str_def published_struct_def short_entry_def
        demo_entry_def demo_env_def)

lemma placeholder_reprocessed: "needs_reprocess (Some placeholder)"
  by (simp add: placeholder_def py_def startswith_def is_english_summary_def isascii_def)

lemma short_first_run:
  "final_state (demo_env [short_entry] irrelevant) [feed_url] [] (py ''gpt-4o-mini'') 7 None =
     \<lparr>existing_items_map = [(py ''L1'', short_article)],
      new_items_count = 1, updated_count = 0, oracle_log = []\<rparr>"
proof -
  have l: "e_link short_entry = py ''L1''"
    and t: "original_title short_entry = py ''Title''"
    and u: "e_source_url short_entry = feed_url"
    by (simp_all add: short_entry_def demo_entry_def original_title_def)
  have len: "length (py ''too short'') < 20" by (simp add: py_def)
  have id: "uuid4 (demo_env [short_entry] irrelevant) 0 = py ''uuid-0''"
    by (simp add: demo_env_def py_def)
  show ?thesis
    unfolding final_state_def short_entry_valid
    by (simp add: initial_state_def merge_step_def dict_get_def Let_def l short_entry_text len
          apply_entry_def short_entry_stamp t u id short_article_def)
qed

lemma short_second_run:
  "final_state (demo_env [short_entry] irrelevant) [feed_url] [short_article]
      (py ''gpt-4o-mini'') 7 None =
     \<lparr>existing_items_map = [(py ''L1'', short_article)],
      new_items_count = 0, updated_count = 1, oracle_log = []\<rparr>"
proof -
  have l: "e_link short_entry = py ''L1''"
    and t: "original_title short_entry = py ''Title''"
    by (simp_all add: short_entry_def demo_entry_def original_title_def)
  have len: "length (py ''too short'') < 20" by (simp add: py_def)
  have i: "initial_state [short_article] =
      \<lparr>existing_items_map = [(py ''L1'', short_article)],
       new_items_count = 0, updated_count = 0, oracle_log = []\<rparr>"
    by (simp add: initial_state_def short_article_def)
  have s: "a_summary short_article = Some placeholder" by (simp add: short_article_def)
  have up: "short_article\<lparr>a_title := Some (py ''Title''), a_summary := Some placeholder,
              a_timestamp := py ''2024-01-09T12:00:00'', a_date := py ''2024-01-09''\<rparr>
            = short_article"
    by (simp add: short_article_def)
  have nr: "needs_reprocess (a_summary short_article)"
    unfolding s by (rule placeholder_reprocessed)
  show ?thesis
    unfolding final_state_def short_entry_valid i
    by (simp add: merge_step_def dict_get_def Let_def l short_entry_text len nr
          apply_entry_def short_entry_stamp t up)
qed

theorem second_run_counts_witness:
  "new_items_count
     (final_state (demo_env [short_entry] irrelevant) [feed_url]
        (fst (process_news_data (demo_env [short_entry] irrelevant) [feed_url] []
                (py ''gpt-4o-mini'') 7 None))
        (py ''gpt-4o-mini'') 7 None) = 0 \<and>
   fst (process_news_data (demo_env [short_entry] irrelevant) [feed_url] []
          (py ''gpt-4o-mini'') 7 None) = [short_article]"
proof -
  let ?env = "demo_env [short_entry] irrelevant"
  have o: "article_oracle ?env = (\<lambda>n title body model_name filter_prompt. irrelevant body)"
    by (simp add: demo_env_def)
  have 1: "fst (process_news_data ?env [feed_url] [] (py ''gpt-4o-mini'') 7 None)
      = [short_article]"
    unfolding process_news_data_def short_first_run
    by (simp add: dict_values_def sort_reverse_def)
  note t = second_run_counts[where ?env1.0 = ?env and ?env2.0 = ?env and d = 7
      and urls = "[feed_url]" and existing = "[]" and m = "py ''gpt-4o-mini''" and f = None,
      OF o o refl refl]
  show ?thesis using t 1 by simp
qed

text \<open>
  A first run stores an entry with a short body under the placeholder summary. The
  placeholder starts with an ASCII letter, so the second run selects the article for
  reprocessing and counts one update, although its timestamp is the one the feed gives.
\<close>

theorem second_run_counts_counterexample:
  "process_news_data (demo_env [short_entry] irrelevant) [feed_url] [] (py ''gpt-4o-mini'') 7 None
     = ([short_article], 1) \<and>
   process_news_data (demo_env [short_entry] irrelevant) [feed_url] [short_article]
      (py ''gpt-4o-mini'') 7 None = ([short_article], 1) \<and>
   updated_count (final_state (demo_env [short_entry] irrelevant) [feed_url] [short_article]
      (py ''gpt-4o-mini'') 7 None) = 1 \<and>
   a_timestamp short_article = item_timestamp_iso (demo_env [short_entry] irrelevant) short_entry"
proof -
  have 1: "process_news_data (demo_env [short_entry] irrelevant) [feed_url] []
      (py ''gpt-4o-mini'') 7 None = ([short_article], 1)"
    unfolding process_news_data_def short_first_run
    by (simp add: dict_values_def sort_reverse_def)
  have 2: "process_news_data (demo_env [short_entry] irrelevant) [feed_url] [short_article]
      (py ''gpt-4o-mini'') 7 None = ([short_article], 1)"
    unfolding process_news_data_def short_second_run
    by (simp add: dict_values_def sort_reverse_def)
  have 3: "a_timestamp short_article =
      item_timestamp_iso (demo_env [short_entry] irrelevant) short_entry"
    by (simp add: short_entry_stamp short_article_def)
  show ?thesis using 1 2 3 by (simp add: short_second_run)
qed

section \<open>A link sighted twice, first answered Irrelevant\<close>

text \<open>
  The feed shows the link \<open>L1\<close> twice: first with a long body, for which the summarizer
  answers Irrelevant, then with a short body. The link is not in the stored collection.
  The first entry is dropped; the second is still new, takes the placeholder and is
  created: the returned collection has an article with the link, and one change is
  counted.
\<close>

theorem irrelevant_new_entry_counterexample:
  "e_link (demo_entry (py ''L1'') long_body (Some 1704801600)) = py ''L1'' \<and>
   article_oracle (demo_env [demo_entry (py ''L1'') long_body (Some 1704801600), short_entry]
       irrelevant) 0
     (original_title (demo_entry (py ''L1'') long_body (Some 1704801600)))
     (take 4000 (clean_text
        (demo_env [demo_entry (py ''L1'') long_body (Some 1704801600), short_entry] irrelevant)
        (demo_entry (py ''L1'') long_body (Some 1704801600))))
     (py ''gpt-4o-mini'') None = (None, None) \<and>
   process_news_data
     (demo_env [demo_entry (py ''L1'') long_body (Some 1704801600), short_entry] irrelevant)
     [feed_url] [] (py ''gpt-4o-mini'') 7 None = ([short_article], 1) \<and>
   a_link short_article = py ''L1''"
proof -
  let ?e = "demo_entry (py ''L1'') long_body (Some 1704801600)"
  let ?env = "demo_env [?e, short_entry] irrelevant"
  let ?m = "py ''gpt-4o-mini''"
  have len: "length long_body = 44" by (simp add: long_body_def py_def)
  have ne: "long_body \<noteq> []" using len by auto
  have v: "collect_valid_entries ?env 7 [feed_url] = [?e, short_entry]"
    by (simp add: demo_env_def demo_entry_def short_entry_def published_struct_def
          demo_diff_days py_def)
  have ct: "clean_text ?env ?e = long_body"
    by (simp add: clean_text_def demo_env_def demo_entry_def long_body_def py_def)
  have o: "\<And>n t b mo fp. article_oracle ?env n t b mo fp = (None, None)"
    by (simp add: demo_env_def irrelevant_def)
  have l: "e_link ?e = py ''L1''" "original_title ?e = py ''Title''"
    by (simp_all add: demo_entry_def original_title_def)
  have s1: "merge_step ?env ?m None (initial_state []) ?e =
      (initial_state [])\<lparr>oracle_log := [(py ''Title'', long_body)]\<rparr>"
    by (simp add: merge_step_def initial_state_def dict_get_def ct len ne Let_def l o)
  have ls: "e_link short_entry = py ''L1''"
    and ts: "original_title short_entry = py ''Title''"
    and us: "e_source_url short_entry = feed_url"
    by (simp_all add: short_entry_def demo_entry_def original_title_def)
  have lens: "length (py ''too short'') < 20" by (simp add: py_def)
  have id: "uuid4 ?env 0 = py ''uuid-0''" by (simp add: demo_env_def py_def)
  have s2: "merge_step ?env ?m None
        ((initial_state [])\<lparr>oracle_log := [(py ''Title'', long_body)]\<rparr>) short_entry =
      \<lparr>existing_items_map = [(py ''L1'', short_article)],
       new_items_count = 1, updated_count = 0, oracle_log = [(py ''Title'', long_body)]\<rparr>"
    by (simp add: initial_state_def merge_step_def dict_get_def Let_def ls short_entry_text lens
          apply_entry_def short_entry_stamp ts us id short_article_def)
  have fs: "final_state ?env [feed_url] [] ?m 7 None =
      \<lparr>existing_items_map = [(py ''L1'', short_article)],
       new_items_count = 1, updated_count = 0, oracle_log = [(py ''Title'', long_body)]\<rparr>"
    by (simp only: final_state_def v merge_loop.simps s1 s2)
  have 1: "process_news_data ?env [feed_url] [] ?m 7 None = ([short_article], 1)"
    unfolding process_news_data_def fs by (simp add: dict_values_def sort_reverse_def)
  have 2: "a_link short_article = py ''L1''" by (simp add: short_article_def)
  show ?thesis using l(1) o 1 2 by simp
qed

end
